theory Spec2Isabelle
  imports Complex_Main
begin

section \<open>Exceptions and configuration\<close>

text \<open>
  Python exceptions are values. The constructor records the class that the handlers of
  the source distinguish (\<^verbatim>\<open>requests.exceptions.Timeout\<close>, \<^verbatim>\<open>ValueError\<close>) and the
  payload is the text that \<^verbatim>\<open>str(e)\<close> yields.
\<close>

datatype exn = Timeout string | ValueError string | OtherError string

fun str_exn :: "exn \<Rightarrow> string" where
  "str_exn (Timeout s) = s"
| "str_exn (ValueError s) = s"
| "str_exn (OtherError s) = s"

text \<open>The class attributes of \<^verbatim>\<open>RAGConfig\<close> (utils/config.py) and their defaults.\<close>

record RAGConfig =
  EMBEDDING_MAX_WORKERS :: "int option"
  EMBEDDING_BATCH_SIZE :: int
  DOC_PROCESSING_MAX_WORKERS :: "int option"
  CHUNK_SIZE :: int
  CHUNK_OVERLAP :: int
  IMAGE_MAX_WORKERS :: int
  FILE_BATCH_SIZE :: int
  USE_SESSION_POOLING :: bool
  REQUEST_TIMEOUT :: int
  MAX_RETRIES :: int
  ENABLE_PROGRESS_LOGGING :: bool

definition default_config :: RAGConfig where
  "default_config =
     \<lparr> EMBEDDING_MAX_WORKERS = None, EMBEDDING_BATCH_SIZE = 20,
       DOC_PROCESSING_MAX_WORKERS = None, CHUNK_SIZE = 300, CHUNK_OVERLAP = 100,
       IMAGE_MAX_WORKERS = 4, FILE_BATCH_SIZE = 10, USE_SESSION_POOLING = True,
       REQUEST_TIMEOUT = 30, MAX_RETRIES = 3, ENABLE_PROGRESS_LOGGING = True \<rparr>"

text \<open>
  \<^verbatim>\<open>RAGConfig.get_optimal_workers\<close>; the argument \<open>cpu\<close> is what \<^verbatim>\<open>os.cpu_count()\<close>
  returns (\<open>None\<close> when it cannot be determined).
\<close>

definition get_optimal_workers :: "int option \<Rightarrow> string \<Rightarrow> int" where
  "get_optimal_workers cpu task_type =
     (let cpu_count = (case cpu of None \<Rightarrow> 4 | Some c \<Rightarrow> if c = 0 then 4 else c) in
      if task_type = ''cpu'' then min 32 (cpu_count + 4)
      else if task_type = ''io'' then min 32 (cpu_count * 2)
      else if task_type = ''mixed'' then min 16 (cpu_count + 2)
      else cpu_count)"

text \<open>Python's \<^verbatim>\<open>a or b\<close> on an optional integer: \<open>None\<close> and \<open>0\<close> are falsy.\<close>

definition py_or :: "int option \<Rightarrow> int \<Rightarrow> int" where
  "py_or a b = (case a of None \<Rightarrow> b | Some x \<Rightarrow> if x = 0 then b else x)"

text \<open>\<^verbatim>\<open>range(n)\<close>: empty when \<open>n \<le> 0\<close>.\<close>

definition py_range :: "int \<Rightarrow> nat list" where
  "py_range n = [0..<nat n]"

text \<open>
  \<^verbatim>\<open>range(0, n, step)\<close> for \<open>n \<ge> 0\<close>: a zero step raises \<^verbatim>\<open>ValueError\<close>, a negative
  step gives the empty range.
\<close>

definition py_range_step :: "nat \<Rightarrow> int \<Rightarrow> exn + nat list" where
  "py_range_step n step =
     (if step = 0 then Inl (ValueError ''range() arg 3 must not be zero'')
      else if step < 0 then Inr []
      else Inr (map (\<lambda>k. k * nat step) [0..<(n + nat step - 1) div nat step]))"

text \<open>
  \<^verbatim>\<open>ThreadPoolExecutor(max_workers=m)\<close> raises \<^verbatim>\<open>ValueError\<close> for \<open>m \<le> 0\<close>.
\<close>

definition executor_init :: "int \<Rightarrow> exn option" where
  "executor_init m =
     (if m \<le> 0 then Some (ValueError ''max_workers must be greater than 0'') else None)"

text \<open>
  \<^verbatim>\<open>as_completed\<close> over a pool of \<open>n\<close> futures yields futures of that pool only. The scheduler's
  choice is a list of indices; \<open>completed order n\<close> are the indices it names among the \<open>n\<close>
  futures, in its order.
\<close>

definition completed :: "nat list \<Rightarrow> nat \<Rightarrow> nat list" where
  "completed order n = filter (\<lambda>i. i < n) order"

section \<open>The batch embedder (utils/embeddings.py)\<close>

type_synonym vector = "real list"

text \<open>
  The embedding endpoint is outside the program. For one call of \<^verbatim>\<open>embed\<close> it is a
  function from the attempt number (counted from 0, as the loop variable) to the outcome
  of the body of the \<^verbatim>\<open>try\<close>: the vector \<^verbatim>\<open>response.json()['embeddings'][0]\<close>, or the
  exception raised by the secrets lookup, the POST, \<^verbatim>\<open>raise_for_status\<close> or the JSON
  access. The argument is the text sent.
\<close>

type_synonym embed_endpoint = "string \<Rightarrow> nat \<Rightarrow> exn + vector"

datatype embed_event = Request nat | Sleep real

text \<open>
  The loop of \<^verbatim>\<open>TextEmbeddings.embed\<close> over \<^verbatim>\<open>range(RAGConfig.MAX_RETRIES)\<close>. The result is
  the trace of requests and sleeps and the value: a raised exception, a returned
  vector, or Python's implicit \<^verbatim>\<open>None\<close> when the loop body never runs.
\<close>

fun embed_loop ::
  "int \<Rightarrow> (nat \<Rightarrow> exn + vector) \<Rightarrow> nat list \<Rightarrow> embed_event list \<times> (exn + vector option)"
where
  "embed_loop max_retries post [] = ([], Inr None)"
| "embed_loop max_retries post (attempt # rest) =
     (case post attempt of
        Inr v \<Rightarrow> ([Request attempt], Inr (Some v))
      | Inl e \<Rightarrow>
          if int attempt = max_retries - 1 then ([Request attempt], Inl e)
          else (case embed_loop max_retries post rest of
                  (evs, r) \<Rightarrow> (Request attempt # Sleep (0.5 * (real attempt + 1)) # evs, r)))"

definition embed ::
  "RAGConfig \<Rightarrow> embed_endpoint \<Rightarrow> string \<Rightarrow> embed_event list \<times> (exn + vector option)"
where
  "embed cfg endpoint string =
     embed_loop (MAX_RETRIES cfg) (endpoint string) (py_range (MAX_RETRIES cfg))"

text \<open>The fields that \<^verbatim>\<open>TextEmbeddings.__init__\<close> sets and the batch code reads.\<close>

record TextEmbeddings =
  max_workers :: int
  batch_size :: int

definition TextEmbeddings_init ::
  "RAGConfig \<Rightarrow> int option \<Rightarrow> int option \<Rightarrow> int option \<Rightarrow> TextEmbeddings"
where
  "TextEmbeddings_init cfg cpu mw bs =
     \<lparr> max_workers =
         py_or mw (py_or (EMBEDDING_MAX_WORKERS cfg) (get_optimal_workers cpu ''io'')),
       batch_size = py_or bs (EMBEDDING_BATCH_SIZE cfg) \<rparr>"

text \<open>
  \<^verbatim>\<open>_embed_batch\<close>. Task \<open>i\<close> of the pool runs \<^verbatim>\<open>self.embed(texts[i])\<close>; its endpoint
  outcomes are \<open>endpoint i\<close>, so two tasks with the same text may still fare differently.
  \<^verbatim>\<open>as_completed\<close> yields every future once, in an order the scheduler decides: that order
  is the argument \<open>order\<close>, a list of task indices. The slot of a failed task receives
  \<^verbatim>\<open>[0.0] * 1024\<close> and the failure is printed.
\<close>

definition zero_vector :: vector where
  "zero_vector = replicate 1024 0"

definition collect ::
  "(exn + vector option) list \<Rightarrow> nat \<Rightarrow>
   (nat \<times> exn) list \<times> vector option list \<Rightarrow> (nat \<times> exn) list \<times> vector option list"
where
  "collect futures index st =
     (case st of (printed, embeddings) \<Rightarrow>
        (case futures ! index of
           Inr r \<Rightarrow> (printed, embeddings[index := r])
         | Inl exc \<Rightarrow> (printed @ [(index, exc)], embeddings[index := Some zero_vector])))"

definition embed_batch ::
  "RAGConfig \<Rightarrow> TextEmbeddings \<Rightarrow> (nat \<Rightarrow> embed_endpoint) \<Rightarrow> nat list \<Rightarrow> string list \<Rightarrow>
   exn + (nat \<times> exn) list \<times> vector option list"
where
  "embed_batch cfg self endpoint order texts =
     (case executor_init (max_workers self) of
        Some e \<Rightarrow> Inl e
      | None \<Rightarrow>
          (let futures = map (\<lambda>(i, text). snd (embed cfg (endpoint i) text)) (enumerate 0 texts)
           in Inr (fold (collect futures) (completed order (length texts))
                     ([], replicate (length texts) None))))"

text \<open>
  \<^verbatim>\<open>embed_documents\<close>: the batches start at the offsets \<^verbatim>\<open>range(0, len(texts), batch_size)\<close>
  and are embedded one after the other. Text \<open>i\<close> of the whole input is task \<open>i - offset\<close>
  of its batch; \<open>orders offset\<close> is the completion order of the batch at \<open>offset\<close>.
\<close>

fun embed_documents_loop ::
  "RAGConfig \<Rightarrow> TextEmbeddings \<Rightarrow> (nat \<Rightarrow> embed_endpoint) \<Rightarrow> (nat \<Rightarrow> nat list) \<Rightarrow>
   string list \<Rightarrow> nat list \<Rightarrow> vector option list \<Rightarrow> exn + vector option list"
where
  "embed_documents_loop cfg self endpoint orders texts [] all_embeddings = Inr all_embeddings"
| "embed_documents_loop cfg self endpoint orders texts (i # rest) all_embeddings =
     (let batch = take (nat (batch_size self)) (drop i texts) in
      case embed_batch cfg self (\<lambda>j. endpoint (i + j)) (orders i) batch of
        Inl e \<Rightarrow> Inl e
      | Inr (printed, batch_embeddings) \<Rightarrow>
          embed_documents_loop cfg self endpoint orders texts rest
            (all_embeddings @ batch_embeddings))"

definition embed_documents ::
  "RAGConfig \<Rightarrow> TextEmbeddings \<Rightarrow> (nat \<Rightarrow> embed_endpoint) \<Rightarrow> (nat \<Rightarrow> nat list) \<Rightarrow>
   string list \<Rightarrow> exn + vector option list"
where
  "embed_documents cfg self endpoint orders texts =
     (if texts = [] then Inr []
      else case py_range_step (length texts) (batch_size self) of
             Inl e \<Rightarrow> Inl e
           | Inr offsets \<Rightarrow> embed_documents_loop cfg self endpoint orders texts offsets [])"

text \<open>
  A completion order of \<open>n\<close> tasks names each of them exactly once.
\<close>

definition completion_order :: "nat \<Rightarrow> nat list \<Rightarrow> bool" where
  "completion_order n order \<longleftrightarrow> distinct order \<and> set order = {0..<n}"

text \<open>
  What the caller is to find at the position of a text: the vector its \<^verbatim>\<open>embed\<close> call
  returned, or the zero vector when that call raised.
\<close>

definition slot_of :: "exn + vector option \<Rightarrow> vector option" where
  "slot_of r = (case r of Inr v \<Rightarrow> v | Inl e \<Rightarrow> Some zero_vector)"

text \<open>
  The trace the specification describes for attempts \<open>i\<close> up to \<open>a\<close> that all failed and were
  retried: a request, then a wait of \<open>0.5 * k\<close> seconds after the \<open>k\<close>-th attempt (counting
  attempts from 1).
\<close>

definition spec_backoff :: "nat \<Rightarrow> nat \<Rightarrow> embed_event list" where
  "spec_backoff i a = concat (map (\<lambda>b. [Request b, Sleep (0.5 * real (b + 1))]) [i..<a])"


text \<open>Two endpoints for concrete runs: one that recovers on the third attempt, one that is down.\<close>

definition flaky :: embed_endpoint where
  "flaky s a = (if a < 2 then Inl (OtherError ''503'') else Inr [1, 2])"

definition down :: embed_endpoint where
  "down s a = Inl (OtherError (if a = 2 then ''last'' else ''early''))"


text \<open>
  The list the specification asks of \<^verbatim>\<open>embed_many\<close>: position \<open>i\<close> holds what the \<^verbatim>\<open>embed\<close> call
  for the \<open>i\<close>-th text produced.
\<close>

definition spec_embeddings ::
  "RAGConfig \<Rightarrow> (nat \<Rightarrow> embed_endpoint) \<Rightarrow> string list \<Rightarrow> vector option list" where
  "spec_embeddings cfg endpoint texts =
     map (\<lambda>i. slot_of (snd (embed cfg (endpoint i) (texts ! i)))) [0..<length texts]"


text \<open>
  A stub endpoint that fails for the text \<^verbatim>\<open>b\<close> on every attempt and returns a vector of
  length 2 otherwise; a pool with batches of two texts; completion orders for the two
  batches of a three-text input, the first batch finishing in reverse order.
\<close>

definition stub :: "nat \<Rightarrow> embed_endpoint" where
  "stub i s a = (if s = ''b'' then Inl (OtherError ''unavailable'') else Inr [real i, 2])"

definition two_batches :: "nat \<Rightarrow> nat list" where
  "two_batches off = (if off = 0 then [1, 0] else [0])"

definition pool :: TextEmbeddings where
  "pool = \<lparr> max_workers = 4, batch_size = 2 \<rparr>"


section \<open>The world of the ingestion pipeline (utils/rag.py)\<close>

type_synonym path = string

record document =
  page_content :: string
  metadata :: "(string \<times> string) list"

text \<open>
  A vector index is represented by the chunks it holds, in insertion order; the vectors
  are the business of the store and of the embedder above.
\<close>

type_synonym index = "document list"

text \<open>What the pipeline reads of a Streamlit upload: \<^verbatim>\<open>.name\<close> and \<^verbatim>\<open>.getvalue()\<close>.\<close>

record uploaded_file =
  name :: string
  getvalue :: string

datatype loader_kind =
  PyPDFLoader | Docx2txtLoader | JSONLoader | CSVLoader | PythonLoader | NotebookLoader

text \<open>The lines the pipeline prints, one constructor per \<^verbatim>\<open>print\<close> of the source.\<close>

datatype msg =
    Processing_files nat
  | Configuration int int int
  | No_new_files
  | Loading_files nat
  | No_documents_extracted
  | Extracted_documents nat
  | No_text_splits
  | Created_splits nat
  | Error_updating_database exn
  | Error_creating_database exn
  | Processing_completed
  | Processed_summary nat nat
  | Error_during_processing exn
  | Cleanup_warning exn
  | Unsupported_file_type path
  | Error_processing_file path exn
  | Error_processing_images exn
  | File_processing_failed path exn
  | Image_processing_failed path exn
  | Splitting_failed nat exn

text \<open>
  The effects of a run, in the order they happen: directory creation, a staged file
  written, a document loader run on a file, a request to the vision endpoint, a call of the
  text splitter, the two index writes of the store (both embed the chunks through the
  embedding endpoint), the removal of a directory tree, and console output.
\<close>

datatype effect =
    Makedirs path
  | WriteFile path
  | LoaderCall loader_kind path
  | VisionCall path
  | SplitCall nat
  | IndexCreate nat
  | IndexAdd nat
  | Rmtree path
  | Print msg

text \<open>
  The file system is the list of the locations that exist, a location being the list of
  the names from the working directory down. \<open>location p\<close> is the location that a path
  string names: the path is cut at the slashes, empty names and \<^verbatim>\<open>.\<close> are dropped, and
  \<^verbatim>\<open>..\<close> steps back to the parent, as the operating system resolves it.
\<close>

fun split_path :: "path \<Rightarrow> string list" where
  "split_path [] = [[]]"
| "split_path (c # cs) =
     (if c = CHR ''/'' then [] # split_path cs
      else (case split_path cs of [] \<Rightarrow> [[c]] | s # ss \<Rightarrow> (c # s) # ss))"

definition norm_step :: "string list \<Rightarrow> string \<Rightarrow> string list" where
  "norm_step stack seg =
     (if seg = [] \<or> seg = ''.'' then stack
      else if seg = ''..'' then
        (if stack = [] \<or> last stack = ''..'' then stack @ [seg] else butlast stack)
      else stack @ [seg])"

definition location :: "path \<Rightarrow> string list" where
  "location p = foldl norm_step [] (split_path p)"

record world =
  files :: "string list list"
  trace :: "effect list"

text \<open>
  Everything outside the repository that a run depends on: the operating system, the
  document loaders, the vision endpoint, the text splitter, the vector store and the
  scheduler of the thread pools. A field of type \<open>exn option\<close> says whether the call raises;
  the three completion orders are the orders in which \<^verbatim>\<open>as_completed\<close> yields the futures
  of the image pool, the file pool and the splitting pool.
\<close>

record env =
  cpu_count :: "int option"
  makedirs_error :: "path \<Rightarrow> exn option"
  write_error :: "path \<Rightarrow> exn option"
  rmtree_error :: "path \<Rightarrow> exn option"
  loader :: "loader_kind \<Rightarrow> path \<Rightarrow> exn + document list"
  vision :: "path \<Rightarrow> exn + string"
  splitter_error :: "int \<Rightarrow> int \<Rightarrow> exn option"
  split_documents :: "int \<Rightarrow> int \<Rightarrow> document list \<Rightarrow> exn + document list"
  chroma_create_error :: "TextEmbeddings \<Rightarrow> document list \<Rightarrow> exn option"
  chroma_add_error :: "TextEmbeddings \<Rightarrow> index \<Rightarrow> document list \<Rightarrow> exn option"
  image_completion :: "nat list"
  file_completion :: "nat list"
  split_completion :: "nat list"

definition emit :: "effect list \<Rightarrow> world \<Rightarrow> world" where
  "emit evs w = w\<lparr>trace := trace w @ evs\<rparr>"

definition path_exists :: "world \<Rightarrow> path \<Rightarrow> bool" where
  "path_exists w p \<longleftrightarrow> location p \<in> set (files w)"

text \<open>\<open>under d q\<close>: the location \<open>q\<close> is the directory \<open>d\<close> or lies below it.\<close>

definition under :: "string list \<Rightarrow> string list \<Rightarrow> bool" where
  "under d q \<longleftrightarrow> take (length d) q = d"

text \<open>\<^verbatim>\<open>os.makedirs(p, exist_ok=True)\<close>.\<close>

definition makedirs :: "env \<Rightarrow> path \<Rightarrow> world \<Rightarrow> world \<times> exn option" where
  "makedirs ev p w =
     (case makedirs_error ev p of
        Some e \<Rightarrow> (emit [Makedirs p] w, Some e)
      | None \<Rightarrow>
          (emit [Makedirs p]
             (w\<lparr>files := (if location p \<in> set (files w) then files w
                            else files w @ [location p])\<rparr>),
           None))"

text \<open>\<^verbatim>\<open>shutil.rmtree(p)\<close>: on success nothing at or below \<open>p\<close> is left.\<close>

definition rmtree :: "env \<Rightarrow> path \<Rightarrow> world \<Rightarrow> world \<times> exn option" where
  "rmtree ev p w =
     (case rmtree_error ev p of
        Some e \<Rightarrow> (emit [Rmtree p] w, Some e)
      | None \<Rightarrow>
          (emit [Rmtree p] (w\<lparr>files := filter (\<lambda>q. \<not> under (location p) q) (files w)\<rparr>),
           None))"

text \<open>\<^verbatim>\<open>str.endswith\<close>, and the test for the three image extensions.\<close>

definition endswith :: "string \<Rightarrow> string \<Rightarrow> bool" where
  "endswith s suffix \<longleftrightarrow> length suffix \<le> length s \<and> drop (length s - length suffix) s = suffix"

definition is_image :: "path \<Rightarrow> bool" where
  "is_image f \<longleftrightarrow> endswith f ''.jpg'' \<or> endswith f ''.png'' \<or> endswith f ''.jpeg''"

subsection \<open>Loading\<close>

text \<open>
  \<^verbatim>\<open>get_image_desc\<close> (utils/embeddings.py): one request to the vision endpoint; an exception
  of the file read, the request or \<^verbatim>\<open>raise_for_status\<close> propagates.
\<close>

definition get_image_desc :: "env \<Rightarrow> path \<Rightarrow> exn + document list" where
  "get_image_desc ev img =
     (case vision ev img of
        Inl e \<Rightarrow> Inl e
      | Inr response \<Rightarrow> Inr [\<lparr>page_content = response, metadata = [(''file_name'', img)]\<rparr>])"

text \<open>\<^verbatim>\<open>process_input_file\<close>: dispatch on the extension; every exception becomes \<^verbatim>\<open>[]\<close>.\<close>

definition run_loader :: "env \<Rightarrow> loader_kind \<Rightarrow> path \<Rightarrow> effect list \<times> document list" where
  "run_loader ev kind f =
     (case loader ev kind f of
        Inr docs \<Rightarrow> ([LoaderCall kind f], docs)
      | Inl e \<Rightarrow> ([LoaderCall kind f, Print (Error_processing_file f e)], []))"

definition process_input_file :: "env \<Rightarrow> path \<Rightarrow> effect list \<times> document list" where
  "process_input_file ev input_file_name =
     (if endswith input_file_name ''.pdf'' then run_loader ev PyPDFLoader input_file_name
      else if endswith input_file_name ''.docx'' then run_loader ev Docx2txtLoader input_file_name
      else if endswith input_file_name ''.json'' then run_loader ev JSONLoader input_file_name
      else if endswith input_file_name ''.csv'' then run_loader ev CSVLoader input_file_name
      else if endswith input_file_name ''.py'' then run_loader ev PythonLoader input_file_name
      else if endswith input_file_name ''.ipynb'' then run_loader ev NotebookLoader input_file_name
      else if is_image input_file_name then
        (case get_image_desc ev input_file_name of
           Inr docs \<Rightarrow> ([VisionCall input_file_name], docs)
         | Inl e \<Rightarrow>
             ([VisionCall input_file_name, Print (Error_processing_file input_file_name e)], []))
      else ([Print (Unsupported_file_type input_file_name)], []))"

text \<open>
  \<^verbatim>\<open>get_images_desc_batch\<close>: the futures are collected in completion order; a failed image
  contributes a placeholder document.
\<close>

definition collect_image ::
  "path list \<Rightarrow> (exn + document list) list \<Rightarrow> nat \<Rightarrow>
   effect list \<times> document list \<Rightarrow> effect list \<times> document list"
where
  "collect_image image_paths futures i st =
     (case st of (evs, all_documents) \<Rightarrow>
        (case futures ! i of
           Inr documents \<Rightarrow> (evs @ [VisionCall (image_paths ! i)], all_documents @ documents)
         | Inl exc \<Rightarrow>
             (evs @ [VisionCall (image_paths ! i),
                     Print (Image_processing_failed (image_paths ! i) exc)],
              all_documents @
                [\<lparr>page_content = ''Failed to process image: '' @ image_paths ! i,
                  metadata = [(''file_name'', image_paths ! i)]\<rparr>])))"

definition get_images_desc_batch ::
  "env \<Rightarrow> RAGConfig \<Rightarrow> path list \<Rightarrow> int option \<Rightarrow> effect list \<times> (exn + document list)"
where
  "get_images_desc_batch ev cfg image_paths mw =
     (if image_paths = [] then ([], Inr [])
      else
        (let workers =
               py_or mw (py_or (Some (IMAGE_MAX_WORKERS cfg)) (min 8 (int (length image_paths))))
         in case executor_init workers of
              Some e \<Rightarrow> ([], Inl e)
            | None \<Rightarrow>
                (case fold (collect_image image_paths (map (get_image_desc ev) image_paths))
                        (completed (image_completion ev) (length image_paths)) ([], [])
                 of (evs, all_documents) \<Rightarrow> (evs, Inr all_documents))))"

text \<open>
  \<^verbatim>\<open>process_input_files_batch\<close>: images first, as one batch whose failure is printed and
  swallowed; then the other files on a pool of \<^verbatim>\<open>min(max_workers, len(other_files))\<close>
  workers. The constructor of that pool is outside every \<^verbatim>\<open>try\<close> of this function.
\<close>

definition collect_file ::
  "(effect list \<times> document list) list \<Rightarrow> nat \<Rightarrow>
   effect list \<times> document list \<Rightarrow> effect list \<times> document list"
where
  "collect_file futures i st =
     (case st of (evs, all_documents) \<Rightarrow>
        (case futures ! i of (evs', documents) \<Rightarrow>
           (evs @ evs', if documents \<noteq> [] then all_documents @ documents else all_documents)))"

definition process_input_files_batch ::
  "env \<Rightarrow> RAGConfig \<Rightarrow> path list \<Rightarrow> int option \<Rightarrow> effect list \<times> (exn + document list)"
where
  "process_input_files_batch ev cfg input_file_names mw =
     (if input_file_names = [] then ([], Inr [])
      else
        (let image_files = filter is_image input_file_names;
             other_files = filter (\<lambda>f. \<not> is_image f) input_file_names;
             workers0 = py_or mw (py_or (DOC_PROCESSING_MAX_WORKERS cfg)
                                    (get_optimal_workers (cpu_count ev) ''mixed''));
             workers = (if other_files \<noteq> [] then min workers0 (int (length other_files)) else 4);
             images =
               (if image_files \<noteq> [] then
                  (case get_images_desc_batch ev cfg image_files
                          (Some (min 4 (int (length image_files))))
                   of (evs, Inr image_docs) \<Rightarrow> (evs, image_docs)
                    | (evs, Inl e) \<Rightarrow> (evs @ [Print (Error_processing_images e)], []))
                else ([], []))
         in if other_files \<noteq> [] then
              (case executor_init workers of
                 Some e \<Rightarrow> (fst images, Inl e)
               | None \<Rightarrow>
                   (case fold (collect_file (map (process_input_file ev) other_files))
                           (completed (file_completion ev) (length other_files)) images
                    of (evs, all_documents) \<Rightarrow> (evs, Inr all_documents)))
            else (fst images, Inr (snd images))))"

subsection \<open>Splitting\<close>

text \<open>
  \<^verbatim>\<open>get_splits\<close>: up to ten documents are split in one call; more are cut into batches of
  \<^verbatim>\<open>max(1, len(docs) // max_workers)\<close> documents that are split on a pool, a failed batch
  contributing nothing. The constructor of the splitter and the sequential call are
  outside every \<^verbatim>\<open>try\<close>.
\<close>

definition collect_split ::
  "(exn + document list) list \<Rightarrow> nat \<Rightarrow>
   effect list \<times> document list option list \<Rightarrow> effect list \<times> document list option list"
where
  "collect_split futures batch_idx st =
     (case st of (evs, batch_results) \<Rightarrow>
        (case futures ! batch_idx of
           Inr r \<Rightarrow> (evs, batch_results[batch_idx := Some r])
         | Inl exc \<Rightarrow>
             (evs @ [Print (Splitting_failed batch_idx exc)], batch_results[batch_idx := Some []])))"

definition flatten_results :: "document list option list \<Rightarrow> document list" where
  "flatten_results batch_results =
     concat (map (\<lambda>r. case r of None \<Rightarrow> [] | Some b \<Rightarrow> b) batch_results)"

definition get_splits ::
  "env \<Rightarrow> document list \<Rightarrow> int \<Rightarrow> int \<Rightarrow> int option \<Rightarrow> effect list \<times> (exn + document list)"
where
  "get_splits ev docs chunk_size chunk_overlap mw =
     (if docs = [] then ([], Inr [])
      else case splitter_error ev chunk_size chunk_overlap of
        Some e \<Rightarrow> ([], Inl e)
      | None \<Rightarrow>
          if length docs \<le> 10 then
            ([SplitCall (length docs)], split_documents ev chunk_size chunk_overlap docs)
          else
            (let workers = py_or mw (min 4 (int (length docs) div 5));
                 batch_size = max 1 (int (length docs) div workers)
             in case executor_init workers of
                  Some e \<Rightarrow> ([], Inl e)
                | None \<Rightarrow>
                    (case py_range_step (length docs) batch_size of
                       Inl e \<Rightarrow> ([], Inl e)
                     | Inr offsets \<Rightarrow>
                         (let batches = map (\<lambda>i. take (nat batch_size) (drop i docs)) offsets;
                              futures = map (split_documents ev chunk_size chunk_overlap) batches
                          in case fold (collect_split futures)
                                    (completed (split_completion ev) (length batches))
                                    ([], replicate (length batches) None)
                             of (evs, batch_results) \<Rightarrow>
                                  (map (\<lambda>b. SplitCall (length b)) batches @ evs,
                                   Inr (flatten_results batch_results))))))"

subsection \<open>The index\<close>

text \<open>
  Modelled from the spec: the two writes of the vector store, which is a library and not
  part of the sources. \<^verbatim>\<open>Chroma.from_documents\<close> builds an index that holds the given
  chunks and \<^verbatim>\<open>add_documents\<close> appends the chunks to the index it is called on (section 4.5
  of the specification); whether either raises is decided by the environment.
\<close>

definition Chroma_from_documents :: "env \<Rightarrow> TextEmbeddings \<Rightarrow> document list \<Rightarrow> exn + index" where
  "Chroma_from_documents ev embedding documents =
     (case chroma_create_error ev embedding documents of
        Some e \<Rightarrow> Inl e
      | None \<Rightarrow> Inr documents)"

definition add_documents :: "env \<Rightarrow> TextEmbeddings \<Rightarrow> index \<Rightarrow> document list \<Rightarrow> exn + index" where
  "add_documents ev embeddings db documents =
     (case chroma_add_error ev embeddings db documents of
        Some e \<Rightarrow> Inl e
      | None \<Rightarrow> Inr (db @ documents))"

text \<open>\<^verbatim>\<open>get_db\<close>: no index for no chunks; a failed creation is printed and gives \<^verbatim>\<open>None\<close>.\<close>

definition get_db ::
  "env \<Rightarrow> RAGConfig \<Rightarrow> document list \<Rightarrow> int option \<Rightarrow> int option \<Rightarrow> effect list \<times> index option"
where
  "get_db ev cfg splits embedding_max_workers embedding_batch_size =
     (if splits = [] then ([], None)
      else
        (let embedding_fn =
               TextEmbeddings_init cfg (cpu_count ev) embedding_max_workers embedding_batch_size
         in case Chroma_from_documents ev embedding_fn splits of
              Inr db \<Rightarrow> ([IndexCreate (length splits)], Some db)
            | Inl e \<Rightarrow>
                ([IndexCreate (length splits), Print (Error_creating_database e)], None)))"

subsection \<open>The pipeline\<close>

text \<open>
  The staging loop of \<^verbatim>\<open>process_docs\<close>: every upload whose name is not in
  \<^verbatim>\<open>processed_files\<close> is written to \<^verbatim>\<open>data/{session_id}/{name}\<close>; the loop carries
  \<^verbatim>\<open>temp_files\<close> and \<^verbatim>\<open>new_processed\<close>. A failing \<^verbatim>\<open>open\<close> or \<^verbatim>\<open>write\<close> ends it with the
  exception.
\<close>

fun stage_files ::
  "env \<Rightarrow> string \<Rightarrow> string list \<Rightarrow> uploaded_file list \<Rightarrow>
   world \<times> path list \<times> string list \<Rightarrow> (world \<times> path list \<times> string list) \<times> exn option"
where
  "stage_files ev session_id processed_files [] st = (st, None)"
| "stage_files ev session_id processed_files (uploaded_file # rest) (w, temp_files, new_processed) =
     (if name uploaded_file \<notin> set processed_files then
        (let temp_path = ''data/'' @ session_id @ ''/'' @ name uploaded_file in
         case write_error ev temp_path of
           Some e \<Rightarrow> ((emit [WriteFile temp_path] w, temp_files, new_processed), Some e)
         | None \<Rightarrow>
             stage_files ev session_id processed_files rest
               (emit [WriteFile temp_path]
                  (w\<lparr>files := (if location temp_path \<in> set (files w) then files w
                                else files w @ [location temp_path])\<rparr>),
                temp_files @ [temp_path], new_processed @ [name uploaded_file]))
      else stage_files ev session_id processed_files rest (w, temp_files, new_processed))"

text \<open>
  The body of the \<^verbatim>\<open>try\<close> up to the index write has three ways out: an exception, one of
  the three early \<^verbatim>\<open>return existing_db, processed_files\<close>, or the new file names together
  with a non-empty list of chunks.
\<close>

datatype prepared = Raised exn | Nothing_to_do | Chunks "string list" "document list"

definition prepare ::
  "env \<Rightarrow> RAGConfig \<Rightarrow> string \<Rightarrow> uploaded_file list \<Rightarrow> string list \<Rightarrow>
   int \<Rightarrow> int \<Rightarrow> int \<Rightarrow> world \<Rightarrow> world \<times> prepared"
where
  "prepare ev cfg session_id uploaded_files processed_files workers chunk_size chunk_overlap w =
     (case stage_files ev session_id processed_files uploaded_files (w, [], []) of
        ((w1, temp_files, new_processed), Some e) \<Rightarrow> (w1, Raised e)
      | ((w1, temp_files, new_processed), None) \<Rightarrow>
          if temp_files = [] then (emit [Print No_new_files] w1, Nothing_to_do)
          else
            (case process_input_files_batch ev cfg temp_files (Some workers) of
               (evs, Inl e) \<Rightarrow>
                 (emit (Print (Loading_files (length temp_files)) # evs) w1, Raised e)
             | (evs, Inr all_docs) \<Rightarrow>
                 (let w2 = emit (Print (Loading_files (length temp_files)) # evs) w1 in
                  if all_docs = [] then (emit [Print No_documents_extracted] w2, Nothing_to_do)
                  else
                    (case get_splits ev all_docs chunk_size chunk_overlap (Some workers) of
                       (evs', Inl e) \<Rightarrow>
                         (emit (Print (Extracted_documents (length all_docs)) # evs') w2,
                          Raised e)
                     | (evs', Inr splits) \<Rightarrow>
                         (let w3 = emit (Print (Extracted_documents (length all_docs)) # evs') w2
                          in if splits = [] then (emit [Print No_text_splits] w3, Nothing_to_do)
                             else (emit [Print (Created_splits (length splits))] w3,
                                   Chunks new_processed splits))))))"

text \<open>
  ``Create or update database'': a new index when there was none; otherwise
  \<^verbatim>\<open>add_documents\<close> on the existing one, and when that raises, the message and a new index
  from the new chunks through \<^verbatim>\<open>get_db\<close>.
\<close>

definition update_index ::
  "env \<Rightarrow> RAGConfig \<Rightarrow> index option \<Rightarrow> document list \<Rightarrow> int \<Rightarrow> int \<Rightarrow>
   effect list \<times> index option"
where
  "update_index ev cfg existing_db splits workers embedding_batch_size =
     (case existing_db of
        None \<Rightarrow> get_db ev cfg splits (Some workers) (Some embedding_batch_size)
      | Some existing \<Rightarrow>
          (let embedding_fn =
                 TextEmbeddings_init cfg (cpu_count ev) (Some workers) (Some embedding_batch_size)
           in case add_documents ev embedding_fn existing splits of
                Inr db \<Rightarrow> ([IndexAdd (length splits)], Some db)
              | Inl e \<Rightarrow>
                  (case get_db ev cfg splits (Some workers) (Some embedding_batch_size) of
                     (evs, db) \<Rightarrow>
                       (IndexAdd (length splits) # Print (Error_updating_database e) # evs, db))))"

text \<open>
  The whole body of the \<^verbatim>\<open>try\<close>. Its value is the world, the contents of the list object
  \<^verbatim>\<open>processed_files\<close> when the body is left, and the exception raised or the index returned
  (the list returned is always that same object).
\<close>

definition process_docs_try ::
  "env \<Rightarrow> RAGConfig \<Rightarrow> string \<Rightarrow> uploaded_file list \<Rightarrow> string list \<Rightarrow> index option \<Rightarrow>
   int \<Rightarrow> int \<Rightarrow> int \<Rightarrow> int \<Rightarrow> world \<Rightarrow> world \<times> string list \<times> (exn + index option)"
where
  "process_docs_try ev cfg session_id uploaded_files processed_files existing_db
       workers embedding_batch_size chunk_size chunk_overlap w =
     (case prepare ev cfg session_id uploaded_files processed_files workers
             chunk_size chunk_overlap w of
        (w1, Raised e) \<Rightarrow> (w1, processed_files, Inl e)
      | (w1, Nothing_to_do) \<Rightarrow> (w1, processed_files, Inr existing_db)
      | (w1, Chunks new_processed splits) \<Rightarrow>
          (case update_index ev cfg existing_db splits workers embedding_batch_size of
             (evs, db) \<Rightarrow>
               (emit (evs @ [Print Processing_completed,
                             Print (Processed_summary (length new_processed) (length splits))]) w1,
                processed_files @ new_processed, Inr db)))"

text \<open>
  Line 163 of the source: the number of workers is the argument, else the configured one,
  else the heuristic for mixed workloads.
\<close>

definition resolve_workers :: "env \<Rightarrow> RAGConfig \<Rightarrow> int option \<Rightarrow> int" where
  "resolve_workers ev cfg mw =
     py_or mw (py_or (DOC_PROCESSING_MAX_WORKERS cfg)
                 (get_optimal_workers (cpu_count ev) ''mixed''))"

text \<open>
  What precedes the \<^verbatim>\<open>try\<close>: the defaults, the two progress lines, and the two
  \<^verbatim>\<open>os.makedirs\<close>, whose exceptions nothing catches.
\<close>

definition process_docs_setup ::
  "env \<Rightarrow> RAGConfig \<Rightarrow> string \<Rightarrow> uploaded_file list \<Rightarrow> int option \<Rightarrow> int option \<Rightarrow> int option \<Rightarrow>
   world \<Rightarrow> world \<times> exn option"
where
  "process_docs_setup ev cfg session_id uploaded_files mw embedding_batch_size chunk_size w =
     (let workers = resolve_workers ev cfg mw;
          w0 = (if ENABLE_PROGRESS_LOGGING cfg then
                  emit [Print (Processing_files (length uploaded_files)),
                        Print (Configuration workers
                                 (py_or embedding_batch_size (EMBEDDING_BATCH_SIZE cfg))
                                 (py_or chunk_size (CHUNK_SIZE cfg)))] w
                else w)
      in case makedirs ev ''data'' w0 of
           (w1, Some e) \<Rightarrow> (w1, Some e)
         | (w1, None) \<Rightarrow> makedirs ev (''data/'' @ session_id) w1)"

text \<open>The \<^verbatim>\<open>finally\<close> clause: the removal is attempted when the directory exists, and an
  exception of the removal is printed as a warning.\<close>

definition cleanup :: "env \<Rightarrow> string \<Rightarrow> world \<Rightarrow> world" where
  "cleanup ev session_id w =
     (if path_exists w (''data/'' @ session_id) then
        (case rmtree ev (''data/'' @ session_id) w of
           (w', None) \<Rightarrow> w'
         | (w', Some e) \<Rightarrow> emit [Print (Cleanup_warning e)] w')
      else w)"

text \<open>
  \<^verbatim>\<open>process_docs\<close>. The result is the world after the call and either the exception that
  left the function or the pair returned: the index, and the contents of the list object
  \<^verbatim>\<open>processed_files\<close> (the caller's list, mutated in place by \<^verbatim>\<open>extend\<close>).
\<close>

definition process_docs ::
  "env \<Rightarrow> RAGConfig \<Rightarrow> string \<Rightarrow> uploaded_file list \<Rightarrow> string list \<Rightarrow> index option \<Rightarrow>
   int option \<Rightarrow> int option \<Rightarrow> int option \<Rightarrow> int option \<Rightarrow> world \<Rightarrow>
   world \<times> (exn + index option \<times> string list)"
where
  "process_docs ev cfg session_id uploaded_files processed_files existing_db
       mw embedding_batch_size chunk_size chunk_overlap w =
     (case process_docs_setup ev cfg session_id uploaded_files mw embedding_batch_size
             chunk_size w of
        (w0, Some e) \<Rightarrow> (w0, Inl e)
      | (w0, None) \<Rightarrow>
          (case process_docs_try ev cfg session_id uploaded_files processed_files existing_db
                  (resolve_workers ev cfg mw)
                  (py_or embedding_batch_size (EMBEDDING_BATCH_SIZE cfg))
                  (py_or chunk_size (CHUNK_SIZE cfg))
                  (py_or chunk_overlap (CHUNK_OVERLAP cfg)) w0 of
             (w1, contents, Inr db) \<Rightarrow> (cleanup ev session_id w1, Inr (db, contents))
           | (w1, contents, Inl e) \<Rightarrow>
               (cleanup ev session_id (emit [Print (Error_during_processing e)] w1),
                Inr (existing_db, contents))))"

text \<open>
  Two classes of effects for stating what a run did: the work of the pipeline on new
  material (staging, loading, the vision endpoint, splitting, index writes with their
  embedding requests), and among it the index writes.
\<close>

fun is_work :: "effect \<Rightarrow> bool" where
  "is_work (WriteFile p) = True"
| "is_work (LoaderCall k p) = True"
| "is_work (VisionCall p) = True"
| "is_work (SplitCall n) = True"
| "is_work (IndexCreate n) = True"
| "is_work (IndexAdd n) = True"
| "is_work (Makedirs p) = False"
| "is_work (Rmtree p) = False"
| "is_work (Print m) = False"

fun is_index_write :: "effect \<Rightarrow> bool" where
  "is_index_write (IndexCreate n) = True"
| "is_index_write (IndexAdd n) = True"
| "is_index_write (WriteFile p) = False"
| "is_index_write (LoaderCall k p) = False"
| "is_index_write (VisionCall p) = False"
| "is_index_write (SplitCall n) = False"
| "is_index_write (Makedirs p) = False"
| "is_index_write (Rmtree p) = False"
| "is_index_write (Print m) = False"

text \<open>
  Concrete runs: an environment in which nothing fails, where every loader yields one
  document and the splitter returns its input; an empty file system; an upload; and the
  same environment with a full disk.
\<close>

definition paris :: document where
  "paris = \<lparr>page_content = ''The capital of France is Paris.'', metadata = [(''source'', ''notes.pdf'')]\<rparr>"

definition quiet_env :: env where
  "quiet_env =
     \<lparr> cpu_count = Some 4,
       makedirs_error = (\<lambda>p. None),
       write_error = (\<lambda>p. None),
       rmtree_error = (\<lambda>p. None),
       loader = (\<lambda>k p. Inr [paris]),
       vision = (\<lambda>p. Inr ''a photograph''),
       splitter_error = (\<lambda>cs co. None),
       split_documents = (\<lambda>cs co docs. Inr docs),
       chroma_create_error = (\<lambda>fn docs. None),
       chroma_add_error = (\<lambda>fn db docs. None),
       image_completion = [0],
       file_completion = [0],
       split_completion = [0] \<rparr>"

definition empty_world :: world where
  "empty_world = \<lparr>files = [], trace = []\<rparr>"

definition notes_pdf :: uploaded_file where
  "notes_pdf = \<lparr>name = ''notes.pdf'', getvalue = ''%PDF-1.4''\<rparr>"



text \<open>
  Three more environments: one in which the staging directory cannot be removed, one in
  which the upsert fails, one in which the creation of an index fails as well; and a chunk
  of an earlier ingestion.
\<close>

definition locked :: env where
  "locked = quiet_env\<lparr>rmtree_error := (\<lambda>p. Some (OtherError ''Permission denied''))\<rparr>"

definition upsert_down :: env where
  "upsert_down = quiet_env\<lparr>chroma_add_error := (\<lambda>fn db docs. Some (OtherError ''upsert failed''))\<rparr>"

definition store_down :: env where
  "store_down = upsert_down\<lparr>chroma_create_error := (\<lambda>fn docs. Some (OtherError ''create failed''))\<rparr>"

definition old_chunk :: document where
  "old_chunk = \<lparr>page_content = ''Earlier material.'', metadata = [(''source'', ''old.pdf'')]\<rparr>"




section \<open>The responder (app/pages/chat.py)\<close>

record exchange =
  user :: string
  bot :: string
  context_used :: nat

record RAGChatbot =
  database :: "index option"
  conversation_history :: "exchange list"

text \<open>
  Modelled from the spec: the two queries of the vector store (library code). Both rank the
  entries by their distance to the query, smaller being more similar, and return at most
  \<open>k\<close> of them, \<^verbatim>\<open>similarity_search\<close> without the distances (section 4.5 of the
  specification). The distance function stands for the embedding of query and chunks;
  whether a query raises (the query has to be embedded over the network) is decided by the
  environment.
\<close>

record store =
  distance :: "string \<Rightarrow> document \<Rightarrow> real"
  score_search_error :: "string \<Rightarrow> int \<Rightarrow> exn option"
  plain_search_error :: "string \<Rightarrow> int \<Rightarrow> exn option"

definition ranked :: "store \<Rightarrow> index \<Rightarrow> string \<Rightarrow> (document \<times> real) list" where
  "ranked st db query = sort_key snd (map (\<lambda>d. (d, distance st query d)) db)"

definition similarity_search_with_score ::
  "store \<Rightarrow> index \<Rightarrow> string \<Rightarrow> int \<Rightarrow> exn + (document \<times> real) list"
where
  "similarity_search_with_score st db query k =
     (case score_search_error st query k of
        Some e \<Rightarrow> Inl e
      | None \<Rightarrow> Inr (take (nat k) (ranked st db query)))"

definition similarity_search :: "store \<Rightarrow> index \<Rightarrow> string \<Rightarrow> int \<Rightarrow> exn + document list" where
  "similarity_search st db query k =
     (case plain_search_error st query k of
        Some e \<Rightarrow> Inl e
      | None \<Rightarrow> Inr (map fst (take (nat k) (ranked st db query))))"

text \<open>
  \<^verbatim>\<open>retrieve_context\<close>. The first component of the result is what \<^verbatim>\<open>st.error\<close> shows, the
  second the list returned. The test \<^verbatim>\<open>not self.database\<close> holds for \<^verbatim>\<open>None\<close> and for an
  index without entries (the length of the store object is the number of its entries).
\<close>

definition retrieve_context ::
  "store \<Rightarrow> RAGChatbot \<Rightarrow> string \<Rightarrow> int \<Rightarrow> string list \<times> string list"
where
  "retrieve_context st self query k =
     (case database self of
        None \<Rightarrow> ([], [])
      | Some db \<Rightarrow>
          if db = [] then ([], [])
          else
          (case similarity_search_with_score st db query k of
             Inl e \<Rightarrow> ([''Error retrieving context: '' @ str_exn e], [])
           | Inr results \<Rightarrow>
               (let context_chunks =
                      map (\<lambda>(doc, score). page_content doc)
                        (filter (\<lambda>(doc, score). score < 1.5) results)
                in if context_chunks = [] then
                     (case similarity_search st db query (min k 3) of
                        Inl e \<Rightarrow> ([''Error retrieving context: '' @ str_exn e], [])
                      | Inr fallback_results \<Rightarrow> ([], map page_content fallback_results))
                   else ([], context_chunks))))"

subsection \<open>Prompt assembly\<close>

definition nl :: string where
  "nl = [CHR 0x0A]"

text \<open>\<^verbatim>\<open>sep.join(xs)\<close>, \<^verbatim>\<open>str.lower\<close> on ASCII letters, and the substring test \<^verbatim>\<open>sub in s\<close>.\<close>

fun join :: "string \<Rightarrow> string list \<Rightarrow> string" where
  "join sep [] = []"
| "join sep [x] = x"
| "join sep (x # y # ys) = x @ sep @ join sep (y # ys)"

definition lower_char :: "char \<Rightarrow> char" where
  "lower_char c =
     (if 65 \<le> (of_char c :: nat) \<and> (of_char c :: nat) \<le> 90
      then char_of (of_char c + 32 :: nat) else c)"

definition lower :: "string \<Rightarrow> string" where
  "lower s = map lower_char s"

fun contains :: "string \<Rightarrow> string \<Rightarrow> bool" where
  "contains sub [] \<longleftrightarrow> sub = []"
| "contains sub (c # cs) \<longleftrightarrow> take (length sub) (c # cs) = sub \<or> contains sub cs"

definition any_in :: "string list \<Rightarrow> string \<Rightarrow> bool" where
  "any_in ws s \<longleftrightarrow> list_ex (\<lambda>word. contains word s) ws"

definition build_prompt :: "RAGChatbot \<Rightarrow> string \<Rightarrow> string list \<Rightarrow> string" where
  "build_prompt self query context =
     (let context_text =
            (if context \<noteq> [] then join (nl @ nl) context else ''No relevant context found.'');
          recent_history =
            drop (length (conversation_history self) - 3) (conversation_history self);
          conversation_context =
            concat (map (\<lambda>x. ''Human: '' @ user x @ nl @ ''Assistant: '' @ bot x @ nl @ nl)
                      recent_history);
          query_lower = lower query;
          is_summary = any_in [''summarize'', ''summary'', ''overview'', ''main points''] query_lower;
          is_comparison = any_in [''compare'', ''difference'', ''versus'', ''vs''] query_lower;
          is_explanation = any_in [''how'', ''why'', ''explain''] query_lower;
          task_instruction =
            (if is_summary then
               ''Provide a comprehensive summary of the key points from the context.''
             else if is_comparison then
               ''Compare the different aspects mentioned in the context, highlighting similarities and differences.''
             else if is_explanation then
               ''Provide a detailed explanation based on the context, breaking down complex concepts if needed.''
             else ''Answer the question directly using information from the context.'')
      in ''You are a helpful AI assistant that answers questions based on provided document context.''
         @ nl @ nl @ ''Previous conversation:'' @ nl @ conversation_context
         @ nl @ nl @ ''Context from documents:'' @ nl @ context_text
         @ nl @ nl @ ''Current question: '' @ query
         @ nl @ nl @ ''Task: '' @ task_instruction
         @ nl @ nl @ ''Instructions:'' @ nl
         @ ''1. Base your answer primarily on the provided context'' @ nl
         @ ''2. If the context is insufficient, clearly state what information is missing'' @ nl
         @ ''3. Be accurate and cite specific details from the context when relevant'' @ nl
         @ ''4. Structure your response clearly with bullet points or numbered lists when appropriate'' @ nl
         @ ''5. If this relates to previous conversation, acknowledge the connection'' @ nl
         @ ''6. Keep responses focused and informative''
         @ nl @ nl @ ''Answer:'')"

subsection \<open>Generation\<close>

text \<open>
  The text-generation endpoint is outside the program: for a prompt, the POST (with its
  secrets lookup and its 30-second timeout) raises or returns a response, of which the code
  reads the status code and \<^verbatim>\<open>response.json()['response']\<close>; that access raises or yields
  the answer.
\<close>

record response =
  status_code :: int
  json_response :: "exn + string"

type_synonym generate_endpoint = "string \<Rightarrow> exn + response"

text \<open>\<^verbatim>\<open>str\<close> of an integer, for the f-string with the status code.\<close>

fun str_nat :: "nat \<Rightarrow> string" where
  "str_nat n =
     (if n < 10 then [char_of (48 + n)] else str_nat (n div 10) @ [char_of (48 + n mod 10)])"

definition str_int :: "int \<Rightarrow> string" where
  "str_int i = (if i < 0 then ''-'' @ str_nat (nat (- i)) else str_nat (nat i))"

text \<open>The body of the \<^verbatim>\<open>try\<close> of \<^verbatim>\<open>generate_response\<close>.\<close>

definition generate_try :: "generate_endpoint \<Rightarrow> string \<Rightarrow> exn + string" where
  "generate_try post prompt =
     (case post prompt of
        Inl e \<Rightarrow> Inl e
      | Inr response \<Rightarrow>
          if status_code response = 200 then json_response response
          else Inr (''Error: Failed to get response from AI model (Status: ''
                    @ str_int (status_code response) @ '')''))"

text \<open>
  \<^verbatim>\<open>generate_response\<close> with its two handlers, \<^verbatim>\<open>requests.exceptions.Timeout\<close> first. The
  value is \<open>Inl\<close> for an exception leaving the method and \<open>Inr\<close> for the string returned.
\<close>

definition generate_response ::
  "generate_endpoint \<Rightarrow> RAGChatbot \<Rightarrow> string \<Rightarrow> string list \<Rightarrow> exn + string"
where
  "generate_response post self query context =
     (case generate_try post (build_prompt self query context) of
        Inr answer \<Rightarrow> Inr answer
      | Inl (Timeout m) \<Rightarrow> Inr ''Error: Request timed out. Please try again.''
      | Inl e \<Rightarrow> Inr (''Error generating response: '' @ str_exn e))"

text \<open>
  Three generation endpoints: one that answers 503, one that times out, one that refuses
  the connection; and a chatbot over a one-chunk index with no history.
\<close>

definition gateway_down :: generate_endpoint where
  "gateway_down prompt = Inr \<lparr>status_code = 503, json_response = Inl (OtherError ''no body'')\<rparr>"

definition slow_model :: generate_endpoint where
  "slow_model prompt = Inl (Timeout ''Read timed out. (read timeout=30)'')"

definition refused :: generate_endpoint where
  "refused prompt = Inl (OtherError ''Connection refused'')"

definition fresh_bot :: RAGChatbot where
  "fresh_bot = \<lparr>database = Some [paris], conversation_history = []\<rparr>"


text \<open>
  Two stores: one in which every chunk is at distance 2 from every query, and the same with
  a similarity search that raises.
\<close>

definition far_store :: store where
  "far_store = \<lparr>distance = (\<lambda>q d. 2), score_search_error = (\<lambda>q k. None),
                 plain_search_error = (\<lambda>q k. None)\<rparr>"

definition offline_store :: store where
  "offline_store =
     far_store\<lparr>score_search_error := (\<lambda>q k. Some (OtherError ''embedding endpoint unreachable''))\<rparr>"


text \<open>
  A plain file name: a single name, not empty, not \<^verbatim>\<open>.\<close> or \<^verbatim>\<open>..\<close>, without a slash.
\<close>

definition plain_name :: "string \<Rightarrow> bool" where
  "plain_name n \<longleftrightarrow> n \<noteq> [] \<and> n \<noteq> ''.'' \<and> n \<noteq> ''..'' \<and> CHR ''/'' \<notin> set n"



definition leak_py :: uploaded_file where
  "leak_py = \<lparr>name = ''../leak.py'', getvalue = ''print(1)''\<rparr>"

definition fallback_down :: store where
  "fallback_down =
     far_store\<lparr>plain_search_error := (\<lambda>q k. Some (OtherError ''embedding endpoint unreachable''))\<rparr>"

section \<open>Retry and backoff of a single embedding\<close>

lemma spec_backoff_step: "i < a \<Longrightarrow> spec_backoff i a = Request i # Sleep (0.5 * real (i + 1)) # spec_backoff (Suc i) a"
  by (simp add: spec_backoff_def upt_conv_Cons)

lemma spec_backoff_nil: "spec_backoff a a = []"
  by (simp add: spec_backoff_def)

lemma embed_loop_success:
  "i \<le> a \<Longrightarrow> a < n \<Longrightarrow> post a = Inr v \<Longrightarrow> (\<forall>b. i \<le> b \<and> b < a \<longrightarrow> isl (post b)) \<Longrightarrow>
   embed_loop (int n) post [i..<n] = (spec_backoff i a @ [Request a], Inr (Some v))"
proof (induction "a - i" arbitrary: i)
  case 0
  then have "i = a" by simp
  with 0 show ?case by (simp add: upt_conv_Cons spec_backoff_nil)
next
  case (Suc d)
  then have lt: "i < a" and fail: "isl (post i)" by auto
  from fail obtain e where e: "post i = Inl e" by (cases "post i") auto
  have ne: "int i \<noteq> int n - 1" using lt Suc.prems by linarith
  have ih: "embed_loop (int n) post [Suc i..<n] = (spec_backoff (Suc i) a @ [Request a], Inr (Some v))"
    using Suc by (intro Suc.hyps(1)) auto
  have "[i..<n] = i # [Suc i..<n]" using lt Suc.prems by (simp add: upt_conv_Cons)
  then show ?case using e ne ih lt by (simp add: spec_backoff_step)
qed

lemma embed_loop_fail:
  "i < n \<Longrightarrow> (\<forall>b. i \<le> b \<and> b < n \<longrightarrow> isl (post b)) \<Longrightarrow>
   embed_loop (int n) post [i..<n] = (spec_backoff i (n - 1) @ [Request (n - 1)], Inl (projl (post (n - 1))))"
proof (induction "n - 1 - i" arbitrary: i)
  case 0
  then have i: "i = n - 1" by simp
  from 0 have "isl (post i)" by auto
  then obtain e where e: "post i = Inl e" by (cases "post i") auto
  have "[i..<n] = [i]" using i 0 by (simp add: upt_conv_Cons)
  moreover have "int i = int n - 1" using i 0 by linarith
  ultimately show ?case using e i by (simp add: spec_backoff_nil)
next
  case (Suc d)
  then have lt: "i < n - 1" by simp
  from Suc have "isl (post i)" by auto
  then obtain e where e: "post i = Inl e" by (cases "post i") auto
  have ne: "int i \<noteq> int n - 1" using lt by linarith
  have ih: "embed_loop (int n) post [Suc i..<n] = (spec_backoff (Suc i) (n - 1) @ [Request (n - 1)], Inl (projl (post (n - 1))))"
    using Suc lt by (intro Suc.hyps(1)) auto
  have "[i..<n] = i # [Suc i..<n]" using lt by (simp add: upt_conv_Cons)
  then show ?case using e ne ih lt by (simp add: spec_backoff_step)
qed

text \<open>
  C5: \<^verbatim>\<open>embed\<close> calls the endpoint at most \<^verbatim>\<open>MAX_RETRIES\<close> times (3 by default). When attempt
  \<open>a\<close> is the first to succeed, the trace is the failed attempts \<open>0..a-1\<close>, each followed by
  a wait of \<open>0.5 * (attempt number)\<close> seconds, then the successful request and nothing more,
  and its vector is returned. When all attempts fail, the same waits separate them, no wait
  follows the last one, and the exception of the last attempt is raised.
\<close>

theorem embed_retry_backoff:
  "MAX_RETRIES default_config = 3 \<and>
   (\<forall>a v. a < nat (MAX_RETRIES cfg) \<and> endpoint s a = Inr v \<and> (\<forall>b<a. isl (endpoint s b)) \<longrightarrow>
      embed cfg endpoint s = (spec_backoff 0 a @ [Request a], Inr (Some v))) \<and>
   (0 < MAX_RETRIES cfg \<and> (\<forall>b < nat (MAX_RETRIES cfg). isl (endpoint s b)) \<longrightarrow>
      embed cfg endpoint s =
        (spec_backoff 0 (nat (MAX_RETRIES cfg) - 1) @ [Request (nat (MAX_RETRIES cfg) - 1)],
         Inl (projl (endpoint s (nat (MAX_RETRIES cfg) - 1)))))"
proof (intro conjI allI impI)
  show "MAX_RETRIES default_config = 3" by (simp add: default_config_def)
next
  fix a v
  assume h: "a < nat (MAX_RETRIES cfg) \<and> endpoint s a = Inr v \<and> (\<forall>b<a. isl (endpoint s b))"
  then have "int (nat (MAX_RETRIES cfg)) = MAX_RETRIES cfg" by linarith
  moreover have "embed_loop (int (nat (MAX_RETRIES cfg))) (endpoint s) [0..<nat (MAX_RETRIES cfg)]
        = (spec_backoff 0 a @ [Request a], Inr (Some v))"
    using h by (intro embed_loop_success) auto
  ultimately show "embed cfg endpoint s = (spec_backoff 0 a @ [Request a], Inr (Some v))"
    by (simp add: embed_def py_range_def)
next
  assume h: "0 < MAX_RETRIES cfg \<and> (\<forall>b < nat (MAX_RETRIES cfg). isl (endpoint s b))"
  then have "int (nat (MAX_RETRIES cfg)) = MAX_RETRIES cfg" by simp
  moreover have "embed_loop (int (nat (MAX_RETRIES cfg))) (endpoint s) [0..<nat (MAX_RETRIES cfg)]
        = (spec_backoff 0 (nat (MAX_RETRIES cfg) - 1) @ [Request (nat (MAX_RETRIES cfg) - 1)],
         Inl (projl (endpoint s (nat (MAX_RETRIES cfg) - 1))))"
    using h by (intro embed_loop_fail) auto
  ultimately show "embed cfg endpoint s =
        (spec_backoff 0 (nat (MAX_RETRIES cfg) - 1) @ [Request (nat (MAX_RETRIES cfg) - 1)],
         Inl (projl (endpoint s (nat (MAX_RETRIES cfg) - 1))))"
    by (simp add: embed_def py_range_def)
qed

theorem embed_retry_backoff_witness:
  "embed default_config flaky ''a'' = ([Request 0, Sleep 0.5, Request 1, Sleep 1, Request 2], Inr (Some [1, 2])) \<and>
   embed default_config down ''a'' = ([Request 0, Sleep 0.5, Request 1, Sleep 1, Request 2], Inl (OtherError ''last''))"
proof -
  have mr: "nat (MAX_RETRIES default_config) = 3" by (simp add: default_config_def)
  have tr: "spec_backoff 0 2 = [Request 0, Sleep 0.5, Request 1, Sleep 1]"
    by (simp add: spec_backoff_def upt_conv_Cons)
  have a: "(2::nat) < nat (MAX_RETRIES default_config) \<and> flaky ''a'' 2 = Inr [1, 2] \<and> (\<forall>b<2. isl (flaky ''a'' b))"
    by (simp add: mr flaky_def)
  have b: "0 < MAX_RETRIES default_config \<and> (\<forall>b < nat (MAX_RETRIES default_config). isl (down ''a'' b))"
    by (simp add: default_config_def down_def)
  from embed_retry_backoff [of default_config flaky "''a''"] a
  have 1: "embed default_config flaky ''a'' = (spec_backoff 0 2 @ [Request 2], Inr (Some [1, 2]))"
    by blast
  from embed_retry_backoff [of default_config down "''a''"] b
  have 2: "embed default_config down ''a'' =
        (spec_backoff 0 (nat (MAX_RETRIES default_config) - 1) @ [Request (nat (MAX_RETRIES default_config) - 1)],
         Inl (projl (down ''a'' (nat (MAX_RETRIES default_config) - 1))))"
    by blast
  show ?thesis using 1 2 by (simp add: mr tr down_def)
qed

section \<open>Batches keep positions\<close>

lemma snd_collect:
  "snd (collect futures x (pr, embs)) = embs[x := slot_of (futures ! x)]"
  by (simp add: collect_def slot_of_def split: sum.splits)

lemma fold_collect_length:
  "length (snd (fold (collect futures) order (pr, embs))) = length embs"
proof (induction order arbitrary: pr embs)
  case Nil
  then show ?case by simp
next
  case (Cons x xs)
  obtain pr' where c: "collect futures x (pr, embs) = (pr', embs[x := slot_of (futures ! x)])"
    using snd_collect [of futures x pr embs] by (cases "collect futures x (pr, embs)") simp
  from Cons.IH [of pr' "embs[x := slot_of (futures ! x)]"] show ?case
    using c by simp
qed

lemma fold_collect_nth:
  "i < length embs \<Longrightarrow>
   snd (fold (collect futures) order (pr, embs)) ! i =
     (if i \<in> set order then slot_of (futures ! i) else embs ! i)"
proof (induction order arbitrary: pr embs)
  case Nil
  then show ?case by simp
next
  case (Cons x xs)
  obtain pr' where c: "collect futures x (pr, embs) = (pr', embs[x := slot_of (futures ! x)])"
    using snd_collect [of futures x pr embs] by (cases "collect futures x (pr, embs)") simp
  have "i < length (embs[x := slot_of (futures ! x)])" using Cons.prems by simp
  from Cons.IH [OF this, of pr'] show ?case
    using c Cons.prems by (auto simp: nth_list_update)
qed

lemma map_enumerate_nth:
  "map (\<lambda>(i, t). f i t) (enumerate 0 xs) = map (\<lambda>i. f i (xs ! i)) [0..<length xs]"
  by (rule nth_equalityI) (simp_all add: nth_enumerate_eq)

lemma completed_order: "completion_order n order \<Longrightarrow> completed order n = order"
  by (auto simp: completion_order_def completed_def filter_id_conv)

lemma embed_batch_slots:
  assumes "0 < max_workers self" and "completion_order (length texts) order"
  shows "\<exists>printed. embed_batch cfg self endpoint order texts =
           Inr (printed, map (\<lambda>i. slot_of (snd (embed cfg (endpoint i) (texts ! i)))) [0..<length texts])"
proof -
  let ?futures = "map (\<lambda>(i, text). snd (embed cfg (endpoint i) text)) (enumerate 0 texts)"
  let ?r = "fold (collect ?futures) order ([], replicate (length texts) None)"
  have co: "completed order (length texts) = order" using assms(2) by (rule completed_order)
  have fut: "?futures = map (\<lambda>i. snd (embed cfg (endpoint i) (texts ! i))) [0..<length texts]"
    by (rule map_enumerate_nth)
  have sndr: "snd ?r = map (\<lambda>i. slot_of (snd (embed cfg (endpoint i) (texts ! i)))) [0..<length texts]"
  proof (rule nth_equalityI)
    show "length (snd ?r) = length (map (\<lambda>i. slot_of (snd (embed cfg (endpoint i) (texts ! i)))) [0..<length texts])"
      by (simp add: fold_collect_length)
  next
    fix i assume "i < length (snd ?r)"
    then have i: "i < length texts"
      by (simp add: fold_collect_length)
    then have "i \<in> set order" using assms(2) by (simp add: completion_order_def)
    then show "snd ?r ! i = map (\<lambda>i. slot_of (snd (embed cfg (endpoint i) (texts ! i)))) [0..<length texts] ! i"
      using fold_collect_nth [of i "replicate (length texts) None" ?futures order "[]"] i
      by (simp add: fut)
  qed
  obtain printed embs where r: "?r = (printed, embs)" by (cases ?r)
  have eb: "embed_batch cfg self endpoint order texts = Inr ?r"
    using assms(1) by (simp add: embed_batch_def executor_init_def co)
  have "embs = map (\<lambda>i. slot_of (snd (embed cfg (endpoint i) (texts ! i)))) [0..<length texts]"
    using sndr unfolding r by simp
  then show ?thesis unfolding eb r by blast
qed

lemma batch_is_slice:
  assumes "0 < b"
  shows "map (\<lambda>j. slot_of (snd (embed cfg (endpoint (off + j)) (take b (drop off texts) ! j))))
           [0..<length (take b (drop off texts))]
         = take b (drop off (spec_embeddings cfg endpoint texts))"
proof (rule nth_equalityI)
  show "length (map (\<lambda>j. slot_of (snd (embed cfg (endpoint (off + j)) (take b (drop off texts) ! j))))
           [0..<length (take b (drop off texts))])
      = length (take b (drop off (spec_embeddings cfg endpoint texts)))"
    by (simp add: spec_embeddings_def)
next
  fix i
  assume "i < length (map (\<lambda>j. slot_of (snd (embed cfg (endpoint (off + j)) (take b (drop off texts) ! j))))
           [0..<length (take b (drop off texts))])"
  then have i: "i < b" "off + i < length texts" by auto
  then have "take b (drop off texts) ! i = texts ! (off + i)" by simp
  moreover have "take b (drop off (spec_embeddings cfg endpoint texts)) ! i
      = slot_of (snd (embed cfg (endpoint (off + i)) (texts ! (off + i))))"
    using i by (simp add: spec_embeddings_def)
  ultimately show "map (\<lambda>j. slot_of (snd (embed cfg (endpoint (off + j)) (take b (drop off texts) ! j))))
           [0..<length (take b (drop off texts))] ! i
      = take b (drop off (spec_embeddings cfg endpoint texts)) ! i"
    using i by simp
qed

lemma embed_documents_loop_slots:
  assumes mw: "0 < max_workers self" and bs: "0 < batch_size self"
    and ord: "\<forall>k<m. completion_order
                 (length (take (nat (batch_size self)) (drop (k * nat (batch_size self)) texts)))
                 (orders (k * nat (batch_size self)))"
  shows "j \<le> m \<Longrightarrow>
     embed_documents_loop cfg self endpoint orders texts
        (map (\<lambda>k. k * nat (batch_size self)) [j..<m])
        (take (j * nat (batch_size self)) (spec_embeddings cfg endpoint texts))
     = Inr (take (m * nat (batch_size self)) (spec_embeddings cfg endpoint texts))"
proof (induction "m - j" arbitrary: j)
  case 0
  then show ?case by simp
next
  case (Suc d)
  let ?b = "nat (batch_size self)"
  let ?R = "spec_embeddings cfg endpoint texts"
  have lt: "j < m" using Suc by simp
  have b: "0 < ?b" using bs by simp
  have co: "completion_order (length (take ?b (drop (j * ?b) texts))) (orders (j * ?b))"
    using ord lt by blast
  obtain printed where
    eb: "embed_batch cfg self (\<lambda>i. endpoint (j * ?b + i)) (orders (j * ?b)) (take ?b (drop (j * ?b) texts))
       = Inr (printed, take ?b (drop (j * ?b) ?R))"
    using embed_batch_slots [OF mw co, of cfg "\<lambda>i. endpoint (j * ?b + i)"]
      batch_is_slice [OF b, of cfg endpoint "j * ?b" texts]
    by auto
  have acc: "take (j * ?b) ?R @ take ?b (drop (j * ?b) ?R) = take (Suc j * ?b) ?R"
    using take_add [of "j * ?b" ?b ?R] by (simp add: add.commute)
  have ih: "embed_documents_loop cfg self endpoint orders texts
        (map (\<lambda>k. k * ?b) [Suc j..<m]) (take (Suc j * ?b) ?R) = Inr (take (m * ?b) ?R)"
    using Suc lt by (intro Suc.hyps(1)) auto
  have "[j..<m] = j # [Suc j..<m]" using lt by (simp add: upt_conv_Cons)
  then show ?case using eb acc ih by (simp add: Let_def)
qed

lemma embed_documents_slots:
  assumes "0 < max_workers self" and "0 < batch_size self"
    and "\<forall>k. k * nat (batch_size self) < length texts \<longrightarrow>
           completion_order
             (length (take (nat (batch_size self)) (drop (k * nat (batch_size self)) texts)))
             (orders (k * nat (batch_size self)))"
  shows "embed_documents cfg self endpoint orders texts = Inr (spec_embeddings cfg endpoint texts)"
proof (cases "texts = []")
  case True
  then show ?thesis by (simp add: embed_documents_def spec_embeddings_def)
next
  case False
  let ?b = "nat (batch_size self)"
  let ?n = "length texts"
  let ?m = "(?n + ?b - 1) div ?b"
  let ?R = "spec_embeddings cfg endpoint texts"
  have b: "0 < ?b" using assms(2) by simp
  have dm: "?n + ?b - 1 = ?m * ?b + (?n + ?b - 1) mod ?b" by simp
  have md: "(?n + ?b - 1) mod ?b < ?b" using b by simp
  have "?n \<le> ?m * ?b" using dm md by linarith
  then have full: "take (?m * ?b) ?R = ?R" by (simp add: spec_embeddings_def)
  have offs: "k * ?b < ?n" if "k < ?m" for k
  proof -
    from that have "Suc k \<le> ?m" by simp
    then have "Suc k * ?b \<le> ?m * ?b" by (rule mult_le_mono1)
    also have "\<dots> \<le> ?n + ?b - 1" using dm by linarith
    finally show ?thesis using b by simp
  qed
  have ord: "\<forall>k<?m. completion_order (length (take ?b (drop (k * ?b) texts))) (orders (k * ?b))"
    using assms(3) offs by blast
  have "embed_documents_loop cfg self endpoint orders texts (map (\<lambda>k. k * ?b) [0..<?m])
          (take (0 * ?b) ?R) = Inr (take (?m * ?b) ?R)"
    using assms(1,2) ord by (intro embed_documents_loop_slots) auto
  then show ?thesis
    using False assms(2) full by (simp add: embed_documents_def py_range_step_def)
qed

lemma length_zero_vector: "length zero_vector = 1024"
  by (simp add: zero_vector_def)

text \<open>
  C2: for a pool that can be built (\<open>max_workers > 0\<close>) and a positive batch size,
  \<^verbatim>\<open>embed_documents\<close> returns a list as long as \<open>texts\<close> whose element \<open>i\<close> is what the
  \<^verbatim>\<open>embed\<close> call for \<open>texts[i]\<close> produced, the zero vector when that call raised, whatever the
  batch boundaries and whatever order the tasks of each batch complete in.
\<close>

theorem embed_documents_positional:
  assumes "0 < max_workers self" and "0 < batch_size self"
    and "\<forall>k. k * nat (batch_size self) < length texts \<longrightarrow>
           completion_order
             (length (take (nat (batch_size self)) (drop (k * nat (batch_size self)) texts)))
             (orders (k * nat (batch_size self)))"
  shows "\<exists>embeddings. embed_documents cfg self endpoint orders texts = Inr embeddings
           \<and> length embeddings = length texts
           \<and> (\<forall>i < length texts.
                 embeddings ! i = slot_of (snd (embed cfg (endpoint i) (texts ! i))))"
  using embed_documents_slots [OF assms] by (simp add: spec_embeddings_def)

lemma embed_stub:
  "snd (embed default_config (stub i) s) =
     (if s = ''b'' then Inl (OtherError ''unavailable'') else Inr (Some [real i, 2]))"
  by (simp add: embed_def py_range_def default_config_def stub_def upt_conv_Cons)

lemma two_batches_ok:
  "\<forall>k. k * nat (batch_size pool) < length [''a'', ''b'', ''c''] \<longrightarrow>
       completion_order
         (length (take (nat (batch_size pool)) (drop (k * nat (batch_size pool)) [''a'', ''b'', ''c''])))
         (two_batches (k * nat (batch_size pool)))"
proof (intro allI impI)
  fix k assume "k * nat (batch_size pool) < length [''a'', ''b'', ''c'']"
  then have "k = 0 \<or> k = 1" by (auto simp: pool_def)
  then show "completion_order
         (length (take (nat (batch_size pool)) (drop (k * nat (batch_size pool)) [''a'', ''b'', ''c''])))
         (two_batches (k * nat (batch_size pool)))"
    by (auto simp: pool_def two_batches_def completion_order_def)
qed

theorem embed_documents_positional_witness:
  "embed_documents default_config pool stub two_batches [''a'', ''b'', ''c'']
     = Inr [Some [0, 2], Some zero_vector, Some [2, 2]]"
proof -
  have mw: "0 < max_workers pool" and bs: "0 < batch_size pool" by (simp_all add: pool_def)
  from embed_documents_positional [OF mw bs two_batches_ok, of default_config stub]
  obtain embeddings where
    e: "embed_documents default_config pool stub two_batches [''a'', ''b'', ''c''] = Inr embeddings"
    and l: "length embeddings = 3"
    and n: "\<forall>i<3. embeddings ! i = slot_of (snd (embed default_config (stub i) ([''a'', ''b'', ''c''] ! i)))"
    by auto
  have "embeddings ! 0 = Some [0, 2]" "embeddings ! 1 = Some zero_vector" "embeddings ! 2 = Some [2, 2]"
    using n by (simp_all add: embed_stub slot_of_def)
  then have "embeddings = [Some [0, 2], Some zero_vector, Some [2, 2]]"
    using l by (intro nth_equalityI) (auto simp: less_Suc_eq numeral_3_eq_3 numeral_2_eq_2)
  then show ?thesis using e by simp
qed

text \<open>
  C4, as the code has it: the slot of an item whose \<^verbatim>\<open>embed\<close> call raised holds the all-zero
  vector of the fixed length 1024, the call as a whole still returns, and every item whose
  call returned has its own result in its slot.
\<close>

theorem embed_documents_zero_fallback:
  assumes "0 < max_workers self" and "0 < batch_size self"
    and "\<forall>k. k * nat (batch_size self) < length texts \<longrightarrow>
           completion_order
             (length (take (nat (batch_size self)) (drop (k * nat (batch_size self)) texts)))
             (orders (k * nat (batch_size self)))"
    and "i < length texts" and "snd (embed cfg (endpoint i) (texts ! i)) = Inl e"
  shows "\<exists>embeddings. embed_documents cfg self endpoint orders texts = Inr embeddings
           \<and> length embeddings = length texts
           \<and> embeddings ! i = Some (replicate 1024 0)
           \<and> (\<forall>j < length texts. \<forall>v. snd (embed cfg (endpoint j) (texts ! j)) = Inr v
                  \<longrightarrow> embeddings ! j = v)"
  using embed_documents_slots [OF assms(1,2,3)] assms(4,5)
  by (simp add: spec_embeddings_def slot_of_def zero_vector_def)

theorem embed_documents_zero_fallback_witness:
  "\<exists>embeddings. embed_documents default_config pool stub two_batches [''a'', ''b'', ''c''] = Inr embeddings
      \<and> length embeddings = 3 \<and> embeddings ! 1 = Some (replicate 1024 0)
      \<and> embeddings ! 0 = Some [0, 2] \<and> embeddings ! 2 = Some [2, 2]"
proof -
  have mw: "0 < max_workers pool" and bs: "0 < batch_size pool" by (simp_all add: pool_def)
  have i: "(1::nat) < length [''a'', ''b'', ''c'']" by simp
  have f: "snd (embed default_config (stub 1) ([''a'', ''b'', ''c''] ! 1)) = Inl (OtherError ''unavailable'')"
    by (simp add: embed_stub)
  from embed_documents_zero_fallback
         [where self = pool and orders = two_batches and cfg = default_config and endpoint = stub
            and texts = "[''a'', ''b'', ''c'']" and i = 1, OF mw bs two_batches_ok i f]
  obtain embeddings where
    e: "embed_documents default_config pool stub two_batches [''a'', ''b'', ''c''] = Inr embeddings"
    and l: "length embeddings = 3"
    and z: "embeddings ! 1 = Some (replicate 1024 0)"
    and n: "\<forall>j<3. \<forall>v. snd (embed default_config (stub j) ([''a'', ''b'', ''c''] ! j)) = Inr v
                  \<longrightarrow> embeddings ! j = v"
    by auto
  have "embeddings ! 0 = Some [0, 2]" "embeddings ! 2 = Some [2, 2]"
    using n by (simp_all add: embed_stub)
  then show ?thesis using e l z by simp
qed

text \<open>
  C4 as stated fails: the fallback has 1024 components whatever the endpoint returns. With
  an endpoint of dimension 2 the result mixes vectors of length 2 and a fallback of length
  1024.
\<close>

lemma embed_documents_stub:
  "embed_documents default_config pool stub two_batches [''a'', ''b'', ''c'']
     = Inr [Some [0, 2], Some zero_vector, Some [2, 2]]"
proof -
  have mw: "0 < max_workers pool" and bs: "0 < batch_size pool" by (simp_all add: pool_def)
  have "embed_documents default_config pool stub two_batches [''a'', ''b'', ''c'']
      = Inr (spec_embeddings default_config stub [''a'', ''b'', ''c''])"
    by (rule embed_documents_slots [OF mw bs two_batches_ok])
  also have "spec_embeddings default_config stub [''a'', ''b'', ''c'']
      = [Some [0, 2], Some zero_vector, Some [2, 2]]"
    by (simp add: spec_embeddings_def embed_stub slot_of_def upt_conv_Cons)
  finally show ?thesis .
qed

theorem zero_fallback_dimension_counterexample:
  "snd (embed default_config (stub 0) ''a'') = Inr (Some [0, 2]) \<and>
   snd (embed default_config (stub 1) ''b'') = Inl (OtherError ''unavailable'') \<and>
   map (map_option length)
     (projr (embed_documents default_config pool stub two_batches [''a'', ''b'', ''c'']))
     = [Some 2, Some 1024, Some 2]"
  by (simp add: embed_documents_stub embed_stub length_zero_vector)

section \<open>The ingestion pipeline\<close>

lemma trace_emit: "trace (emit evs w) = trace w @ evs"
  by (simp add: emit_def)

lemma files_emit: "files (emit evs w) = files w"
  by (simp add: emit_def)

lemma stage_files_all_processed:
  "\<forall>f \<in> set uploaded_files. name f \<in> set processed_files \<Longrightarrow>
   stage_files ev session_id processed_files uploaded_files st = (st, None)"
proof (induction uploaded_files)
  case Nil
  then show ?case by simp
next
  case (Cons f fs)
  obtain w t n where st: "st = (w, t, n)" by (cases st)
  from Cons show ?case unfolding st by simp
qed

lemma stage_files_files:
  "stage_files ev session_id processed_files uploaded_files (w, t, n) = ((w', t', n'), r) \<Longrightarrow>
   set (files w) \<subseteq> set (files w')"
proof (induction uploaded_files arbitrary: w t n)
  case Nil
  then show ?case by simp
next
  case (Cons f fs)
  then show ?case
    by (fastforce simp: Let_def files_emit split: if_splits option.splits)
qed


lemma makedirs_trace: "trace (fst (makedirs ev p w)) = trace w @ [Makedirs p]"
  by (simp add: makedirs_def trace_emit emit_def split: option.splits)

lemma makedirs_ok_files:
  "makedirs ev p w = (w', None) \<Longrightarrow>
   location p \<in> set (files w') \<and> set (files w) \<subseteq> set (files w')"
  by (auto simp: makedirs_def emit_def split: option.splits if_splits)

lemma setup_work:
  "filter is_work (trace (fst (process_docs_setup ev cfg sid ups mw ebs cs w))) = filter is_work (trace w)"
proof -
  let ?w0 = "if ENABLE_PROGRESS_LOGGING cfg then
                  emit [Print (Processing_files (length ups)),
                        Print (Configuration (resolve_workers ev cfg mw)
                                 (py_or ebs (EMBEDDING_BATCH_SIZE cfg))
                                 (py_or cs (CHUNK_SIZE cfg)))] w
                else w"
  have a: "filter is_work (trace ?w0) = filter is_work (trace w)" by (simp add: trace_emit)
  obtain w1 r where m: "makedirs ev ''data'' ?w0 = (w1, r)" by (cases "makedirs ev ''data'' ?w0")
  have b: "filter is_work (trace w1) = filter is_work (trace w)"
    using makedirs_trace [of ev "''data''" ?w0] m a by simp
  show ?thesis
  proof (cases r)
    case None
    then show ?thesis
      using m b makedirs_trace [of ev "''data/'' @ sid" w1]
      by (simp add: process_docs_setup_def Let_def)
  next
    case (Some e)
    then show ?thesis using m b by (simp add: process_docs_setup_def Let_def)
  qed
qed

lemma setup_ok_files:
  assumes "process_docs_setup ev cfg sid ups mw ebs cs w = (w0, None)"
  shows "location (''data/'' @ sid) \<in> set (files w0)"
  using assms makedirs_ok_files
  by (fastforce simp: process_docs_setup_def Let_def split: prod.splits option.splits if_splits)

lemma rmtree_trace: "trace (fst (rmtree ev p w)) = trace w @ [Rmtree p]"
  by (simp add: rmtree_def emit_def split: option.splits)

lemma cleanup_work: "filter is_work (trace (cleanup ev sid w)) = filter is_work (trace w)"
proof (cases "path_exists w (''data/'' @ sid)")
  case True
  obtain w' r where r: "rmtree ev (''data/'' @ sid) w = (w', r)" by (cases "rmtree ev (''data/'' @ sid) w")
  then have "trace w' = trace w @ [Rmtree (''data/'' @ sid)]"
    using rmtree_trace [of ev "''data/'' @ sid" w] by simp
  then show ?thesis using True r by (cases r) (simp_all add: cleanup_def trace_emit)
next
  case False
  then show ?thesis by (simp add: cleanup_def)
qed

lemma prepare_all_processed:
  "\<forall>f \<in> set ups. name f \<in> set pf \<Longrightarrow>
   prepare ev cfg sid ups pf workers cs co w = (emit [Print No_new_files] w, Nothing_to_do)"
  by (simp add: prepare_def stage_files_all_processed)

text \<open>
  C3: when the name of every uploaded file is already in \<^verbatim>\<open>processed_files\<close> (and the two
  staging directories could be created, so that the call returns), \<^verbatim>\<open>process_docs\<close> returns
  the existing index and the list unchanged, and the run stages, loads, splits and embeds
  nothing and sends no request: its trace gains no work effect.
\<close>

theorem process_docs_reingest_noop:
  assumes "process_docs_setup ev cfg session_id uploaded_files mw ebs cs w = (w0, None)"
    and "\<forall>f \<in> set uploaded_files. name f \<in> set processed_files"
  shows "snd (process_docs ev cfg session_id uploaded_files processed_files existing_db
               mw ebs cs co w) = Inr (existing_db, processed_files)
       \<and> filter is_work (trace (fst (process_docs ev cfg session_id uploaded_files processed_files
               existing_db mw ebs cs co w))) = filter is_work (trace w)"
proof -
  have w0: "filter is_work (trace w0) = filter is_work (trace w)"
    using setup_work [of ev cfg session_id uploaded_files mw ebs cs w] assms(1) by simp
  have pd: "process_docs ev cfg session_id uploaded_files processed_files existing_db mw ebs cs co w
      = (cleanup ev session_id (emit [Print No_new_files] w0), Inr (existing_db, processed_files))"
    using assms(1) prepare_all_processed [OF assms(2)]
    by (simp add: process_docs_def process_docs_try_def)
  show ?thesis unfolding pd using w0 by (simp add: cleanup_work trace_emit)
qed

theorem process_docs_reingest_noop_witness:
  "snd (process_docs quiet_env default_config ''s1'' [notes_pdf] [''notes.pdf''] (Some [paris])
          None None None None empty_world) = Inr (Some [paris], [''notes.pdf''])
   \<and> filter is_work (trace (fst (process_docs quiet_env default_config ''s1'' [notes_pdf]
          [''notes.pdf''] (Some [paris]) None None None None empty_world))) = []"
proof -
  have "snd (process_docs_setup quiet_env default_config ''s1'' [notes_pdf] None None None empty_world) = None"
    by (simp add: process_docs_setup_def makedirs_def Let_def quiet_env_def)
  then obtain w0 where
    s: "process_docs_setup quiet_env default_config ''s1'' [notes_pdf] None None None empty_world = (w0, None)"
    by (cases "process_docs_setup quiet_env default_config ''s1'' [notes_pdf] None None None empty_world") simp
  have p: "\<forall>f \<in> set [notes_pdf]. name f \<in> set [''notes.pdf'']" by (simp add: notes_pdf_def)
  from process_docs_reingest_noop [OF s p, of "Some [paris]" None]
  show ?thesis by (simp add: empty_world_def)
qed

section \<open>Cleanup of the staging directory\<close>

lemma prepare_files:
  assumes "prepare ev cfg sid ups pf workers cs co w = (w1, r)"
  shows "set (files w) \<subseteq> set (files w1)"
proof -
  obtain ws t n x where st: "stage_files ev sid pf ups (w, [], []) = ((ws, t, n), x)"
    by (metis prod.collapse)
  have a: "set (files w) \<subseteq> set (files ws)" using stage_files_files [OF st] .
  have "files w1 = files ws"
    using assms st
    by (auto simp: prepare_def Let_def files_emit split: option.splits if_splits prod.splits sum.splits)
  then show ?thesis using a by simp
qed

lemma try_files:
  assumes "process_docs_try ev cfg sid ups pf db workers ebs cs co w = (w1, contents, r)"
  shows "set (files w) \<subseteq> set (files w1)"
proof -
  obtain wp p where p: "prepare ev cfg sid ups pf workers cs co w = (wp, p)"
    by (cases "prepare ev cfg sid ups pf workers cs co w")
  have "files w1 = files wp"
    using assms p
    by (auto simp: process_docs_try_def files_emit split: prepared.splits prod.splits)
  then show ?thesis using prepare_files [OF p] by simp
qed

lemma cleanup_removes:
  assumes "rmtree_error ev (''data/'' @ sid) = None"
    and "location (''data/'' @ sid) \<in> set (files w)"
  shows "\<forall>q \<in> set (files (cleanup ev sid w)). \<not> under (location (''data/'' @ sid)) q"
  using assms by (simp add: cleanup_def path_exists_def rmtree_def emit_def)

lemma under_self: "under d d"
  by (simp add: under_def)

section \<open>The fallback of a failed upsert\<close>

lemma prepare_chunks_nonempty:
  "prepare ev cfg sid ups pf workers cs co w = (w1, Chunks new_processed splits) \<Longrightarrow> splits \<noteq> []"
  by (auto simp: prepare_def Let_def split: option.splits if_splits prod.splits sum.splits)

text \<open>
  C9, as the code has it: when chunks were produced, an index exists, \<^verbatim>\<open>add_documents\<close>
  raises and the creation of a new index from the new chunks succeeds, \<^verbatim>\<open>process_docs\<close>
  returns that new index, which holds the new chunks only, with the new file names appended
  to \<^verbatim>\<open>processed_files\<close>; the failure of the upsert is printed, not raised.
\<close>

theorem process_docs_upsert_fallback:
  assumes "process_docs_setup ev cfg session_id uploaded_files mw ebs cs w = (w0, None)"
    and "prepare ev cfg session_id uploaded_files processed_files (resolve_workers ev cfg mw)
           (py_or cs (CHUNK_SIZE cfg)) (py_or co (CHUNK_OVERLAP cfg)) w0
         = (w1, Chunks new_processed splits)"
    and "existing_db = Some existing"
    and "add_documents ev
           (TextEmbeddings_init cfg (cpu_count ev) (Some (resolve_workers ev cfg mw))
              (Some (py_or ebs (EMBEDDING_BATCH_SIZE cfg)))) existing splits = Inl e"
    and "Chroma_from_documents ev
           (TextEmbeddings_init cfg (cpu_count ev) (Some (resolve_workers ev cfg mw))
              (Some (py_or ebs (EMBEDDING_BATCH_SIZE cfg)))) splits = Inr fresh"
  shows "snd (process_docs ev cfg session_id uploaded_files processed_files existing_db
               mw ebs cs co w) = Inr (Some splits, processed_files @ new_processed)
       \<and> fresh = splits
       \<and> Print (Error_updating_database e) \<in> set (trace (fst (process_docs ev cfg session_id
               uploaded_files processed_files existing_db mw ebs cs co w)))"
proof -
  have ne: "splits \<noteq> []" using prepare_chunks_nonempty [OF assms(2)] .
  have fr: "fresh = splits"
    using assms(5) by (simp add: Chroma_from_documents_def split: option.splits)
  have ui: "update_index ev cfg existing_db splits (resolve_workers ev cfg mw)
              (py_or ebs (EMBEDDING_BATCH_SIZE cfg))
          = ([IndexAdd (length splits), Print (Error_updating_database e),
              IndexCreate (length splits)], Some splits)"
    using assms(3,4,5) ne fr by (simp add: update_index_def get_db_def Let_def)
  have pd: "process_docs ev cfg session_id uploaded_files processed_files existing_db mw ebs cs co w
      = (cleanup ev session_id
           (emit ([IndexAdd (length splits), Print (Error_updating_database e),
                   IndexCreate (length splits)]
                  @ [Print Processing_completed,
                     Print (Processed_summary (length new_processed) (length splits))]) w1),
         Inr (Some splits, processed_files @ new_processed))"
    using assms(1,2) ui by (simp add: process_docs_def process_docs_try_def)
  have "Print (Error_updating_database e) \<in> set (trace (cleanup ev session_id
           (emit ([IndexAdd (length splits), Print (Error_updating_database e),
                   IndexCreate (length splits)]
                  @ [Print Processing_completed,
                     Print (Processed_summary (length new_processed) (length splits))]) w1)))"
    by (auto simp: cleanup_def trace_emit rmtree_def emit_def split: option.splits prod.splits)
  then show ?thesis unfolding pd using fr by simp
qed

section \<open>Concrete runs of the pipeline\<close>

lemma endswith_pdf: "endswith ''data/s1/notes.pdf'' ''.pdf''"
  by (simp add: endswith_def)

lemma not_image_pdf: "\<not> is_image ''data/s1/notes.pdf''"
  by (simp add: is_image_def endswith_def)

lemma load_notes:
  "loader ev = (\<lambda>k p. Inr [paris]) \<Longrightarrow> cpu_count ev = Some 4 \<Longrightarrow> file_completion ev = [0] \<Longrightarrow>
   process_input_files_batch ev default_config [''data/s1/notes.pdf''] (Some (resolve_workers ev default_config None))
     = ([LoaderCall PyPDFLoader ''data/s1/notes.pdf''], Inr [paris])"
  by (simp add: process_input_files_batch_def not_image_pdf Let_def resolve_workers_def py_or_def
        default_config_def get_optimal_workers_def executor_init_def completed_def
        collect_file_def process_input_file_def endswith_pdf run_loader_def)

lemma split_notes:
  "splitter_error ev = (\<lambda>cs co. None) \<Longrightarrow> split_documents ev = (\<lambda>cs co docs. Inr docs) \<Longrightarrow>
   get_splits ev [paris] cs co mw = ([SplitCall 1], Inr [paris])"
  by (simp add: get_splits_def)

lemma prepare_notes:
  assumes "loader ev = (\<lambda>k p. Inr [paris])" "cpu_count ev = Some 4" "file_completion ev = [0]"
    "splitter_error ev = (\<lambda>cs co. None)" "split_documents ev = (\<lambda>cs co docs. Inr docs)"
    "write_error ev = (\<lambda>p. None)"
  shows "snd (prepare ev default_config ''s1'' [notes_pdf] [''old.pdf'']
            (resolve_workers ev default_config None) cs co w0) = Chunks [''notes.pdf''] [paris]"
  using assms(6)
  by (simp add: prepare_def notes_pdf_def Let_def load_notes [OF assms(1,2,3)]
        split_notes [OF assms(4,5)])

lemma setup_returns:
  "makedirs_error ev = (\<lambda>p. None) \<Longrightarrow>
   snd (process_docs_setup ev cfg sid ups mw ebs cs w) = None"
  by (simp add: process_docs_setup_def makedirs_def Let_def)

lemma process_docs_returns:
  assumes "makedirs_error ev = (\<lambda>p. None)"
  shows "\<exists>result. snd (process_docs ev cfg sid ups pf db mw ebs cs co w) = Inr result"
proof -
  obtain w0 where s: "process_docs_setup ev cfg sid ups mw ebs cs w = (w0, None)"
    using setup_returns [OF assms, of cfg sid ups mw ebs cs w]
    by (cases "process_docs_setup ev cfg sid ups mw ebs cs w") simp
  obtain w1 contents r where
    t: "process_docs_try ev cfg sid ups pf db (resolve_workers ev cfg mw)
           (py_or ebs (EMBEDDING_BATCH_SIZE cfg)) (py_or cs (CHUNK_SIZE cfg))
           (py_or co (CHUNK_OVERLAP cfg)) w0 = (w1, contents, r)"
    by (metis prod.collapse)
  show ?thesis using s t by (cases r) (simp_all add: process_docs_def)
qed

theorem process_docs_upsert_fallback_witness:
  "snd (process_docs upsert_down default_config ''s1'' [notes_pdf] [''old.pdf''] (Some [old_chunk])
          None None None None empty_world) = Inr (Some [paris], [''old.pdf'', ''notes.pdf''])"
proof -
  have m: "makedirs_error upsert_down = (\<lambda>p. None)" by (simp add: upsert_down_def quiet_env_def)
  obtain w0 where
    s: "process_docs_setup upsert_down default_config ''s1'' [notes_pdf] None None None empty_world
        = (w0, None)"
    using setup_returns [OF m, of default_config "''s1''" "[notes_pdf]" None None None empty_world]
    by (cases "process_docs_setup upsert_down default_config ''s1'' [notes_pdf] None None None
                 empty_world") simp
  have "snd (prepare upsert_down default_config ''s1'' [notes_pdf] [''old.pdf'']
            (resolve_workers upsert_down default_config None)
            (py_or None (CHUNK_SIZE default_config)) (py_or None (CHUNK_OVERLAP default_config)) w0)
        = Chunks [''notes.pdf''] [paris]"
    by (rule prepare_notes) (simp_all add: upsert_down_def quiet_env_def)
  then obtain w1 where
    p: "prepare upsert_down default_config ''s1'' [notes_pdf] [''old.pdf'']
            (resolve_workers upsert_down default_config None)
            (py_or None (CHUNK_SIZE default_config)) (py_or None (CHUNK_OVERLAP default_config)) w0
        = (w1, Chunks [''notes.pdf''] [paris])"
    by (metis prod.collapse)
  have a: "add_documents upsert_down
           (TextEmbeddings_init default_config (cpu_count upsert_down)
              (Some (resolve_workers upsert_down default_config None))
              (Some (py_or None (EMBEDDING_BATCH_SIZE default_config)))) [old_chunk] [paris]
         = Inl (OtherError ''upsert failed'')"
    by (simp add: add_documents_def upsert_down_def)
  have c: "Chroma_from_documents upsert_down
           (TextEmbeddings_init default_config (cpu_count upsert_down)
              (Some (resolve_workers upsert_down default_config None))
              (Some (py_or None (EMBEDDING_BATCH_SIZE default_config)))) [paris] = Inr [paris]"
    by (simp add: Chroma_from_documents_def upsert_down_def quiet_env_def)
  from process_docs_upsert_fallback [OF s p refl a c] show ?thesis by simp
qed

lemma process_docs_store_down:
  "snd (process_docs store_down default_config ''s1'' [notes_pdf] [''old.pdf''] (Some [old_chunk])
          None None None None empty_world) = Inr (None, [''old.pdf'', ''notes.pdf''])"
proof -
  have m: "makedirs_error store_down = (\<lambda>p. None)"
    by (simp add: store_down_def upsert_down_def quiet_env_def)
  obtain w0 where
    s: "process_docs_setup store_down default_config ''s1'' [notes_pdf] None None None empty_world
        = (w0, None)"
    using setup_returns [OF m, of default_config "''s1''" "[notes_pdf]" None None None empty_world]
    by (cases "process_docs_setup store_down default_config ''s1'' [notes_pdf] None None None
                 empty_world") simp
  have "snd (prepare store_down default_config ''s1'' [notes_pdf] [''old.pdf'']
            (resolve_workers store_down default_config None)
            (py_or None (CHUNK_SIZE default_config)) (py_or None (CHUNK_OVERLAP default_config)) w0)
        = Chunks [''notes.pdf''] [paris]"
    by (rule prepare_notes) (simp_all add: store_down_def upsert_down_def quiet_env_def)
  then obtain w1 where
    p: "prepare store_down default_config ''s1'' [notes_pdf] [''old.pdf'']
            (resolve_workers store_down default_config None)
            (py_or None (CHUNK_SIZE default_config)) (py_or None (CHUNK_OVERLAP default_config)) w0
        = (w1, Chunks [''notes.pdf''] [paris])"
    by (metis prod.collapse)
  have u: "snd (update_index store_down default_config (Some [old_chunk]) [paris]
              (resolve_workers store_down default_config None)
              (py_or None (EMBEDDING_BATCH_SIZE default_config))) = None"
    by (simp add: update_index_def add_documents_def get_db_def Chroma_from_documents_def
          store_down_def upsert_down_def Let_def paris_def)
  obtain evs where
    ui: "update_index store_down default_config (Some [old_chunk]) [paris]
              (resolve_workers store_down default_config None)
              (py_or None (EMBEDDING_BATCH_SIZE default_config)) = (evs, None)"
    using u by (metis prod.collapse)
  show ?thesis
    using s p ui by (simp add: process_docs_def process_docs_try_def)
qed

text \<open>
  C9 as stated fails when the creation of the new index raises as well: \<^verbatim>\<open>get_db\<close> prints
  the error and returns \<^verbatim>\<open>None\<close>, and \<^verbatim>\<open>process_docs\<close> returns no index while the new file
  name is committed.
\<close>

theorem process_docs_upsert_fallback_counterexample:
  "add_documents store_down
      (TextEmbeddings_init default_config (cpu_count store_down)
         (Some (resolve_workers store_down default_config None))
         (Some (py_or None (EMBEDDING_BATCH_SIZE default_config)))) [old_chunk] [paris]
     = Inl (OtherError ''upsert failed'')
   \<and> snd (process_docs store_down default_config ''s1'' [notes_pdf] [''old.pdf''] (Some [old_chunk])
          None None None None empty_world) = Inr (None, [''old.pdf'', ''notes.pdf''])"
proof -
  have "add_documents store_down
      (TextEmbeddings_init default_config (cpu_count store_down)
         (Some (resolve_workers store_down default_config None))
         (Some (py_or None (EMBEDDING_BATCH_SIZE default_config)))) [old_chunk] [paris]
     = Inl (OtherError ''upsert failed'')"
    by (simp add: add_documents_def store_down_def upsert_down_def)
  then show ?thesis using process_docs_store_down by blast
qed

section \<open>Index writes in the trace\<close>








lemma filter_split_calls:
  "filter is_index_write (map ((\<lambda>b. SplitCall (length b)) \<circ> g) xs) = []"
  by (induction xs) simp_all










section \<open>Generation degrades to an error text\<close>

text \<open>
  C6: \<^verbatim>\<open>generate_response\<close> always returns a string and never raises. A timeout gives the
  literal timeout message, a response with a status other than 200 the message with that
  status code, any other exception of the request or of the JSON access the message with
  the text of the exception; a 200 response gives the answer of the model.
\<close>

theorem generate_response_never_raises:
  "(\<exists>answer. generate_response post self query context = Inr answer)
   \<and> (\<forall>m. generate_try post (build_prompt self query context) = Inl (Timeout m) \<longrightarrow>
          generate_response post self query context
            = Inr ''Error: Request timed out. Please try again.'')
   \<and> (\<forall>r. post (build_prompt self query context) = Inr r \<and> status_code r \<noteq> 200 \<longrightarrow>
          generate_response post self query context
            = Inr (''Error: Failed to get response from AI model (Status: ''
                   @ str_int (status_code r) @ '')''))
   \<and> (\<forall>e. generate_try post (build_prompt self query context) = Inl e
            \<and> (\<forall>m. e \<noteq> Timeout m) \<longrightarrow>
          generate_response post self query context
            = Inr (''Error generating response: '' @ str_exn e))
   \<and> (\<forall>r answer. post (build_prompt self query context) = Inr r \<and> status_code r = 200
            \<and> json_response r = Inr answer \<longrightarrow>
          generate_response post self query context = Inr answer)"
proof (intro conjI allI impI)
  show "\<exists>answer. generate_response post self query context = Inr answer"
    by (auto simp: generate_response_def split: sum.splits exn.splits)
next
  fix m
  assume "generate_try post (build_prompt self query context) = Inl (Timeout m)"
  then show "generate_response post self query context
            = Inr ''Error: Request timed out. Please try again.''"
    by (simp add: generate_response_def)
next
  fix r
  assume "post (build_prompt self query context) = Inr r \<and> status_code r \<noteq> 200"
  then show "generate_response post self query context
            = Inr (''Error: Failed to get response from AI model (Status: ''
                   @ str_int (status_code r) @ '')'')"
    by (simp add: generate_response_def generate_try_def)
next
  fix e
  assume "generate_try post (build_prompt self query context) = Inl e \<and> (\<forall>m. e \<noteq> Timeout m)"
  then show "generate_response post self query context
            = Inr (''Error generating response: '' @ str_exn e)"
    by (cases e) (simp_all add: generate_response_def)
next
  fix r answer
  assume "post (build_prompt self query context) = Inr r \<and> status_code r = 200
            \<and> json_response r = Inr answer"
  then show "generate_response post self query context = Inr answer"
    by (simp add: generate_response_def generate_try_def)
qed

lemma str_int_503: "str_int 503 = ''503''"
  by code_simp

theorem generate_response_never_raises_witness:
  "generate_response slow_model fresh_bot ''What is the capital of France?'' []
      = Inr ''Error: Request timed out. Please try again.''
   \<and> generate_response gateway_down fresh_bot ''What is the capital of France?'' []
      = Inr ''Error: Failed to get response from AI model (Status: 503)''
   \<and> generate_response refused fresh_bot ''What is the capital of France?'' []
      = Inr ''Error generating response: Connection refused''"
proof -
  let ?p = "build_prompt fresh_bot ''What is the capital of France?'' []"
  have a: "generate_try slow_model ?p = Inl (Timeout ''Read timed out. (read timeout=30)'')"
    by (simp add: generate_try_def slow_model_def)
  have b: "gateway_down ?p = Inr \<lparr>status_code = 503, json_response = Inl (OtherError ''no body'')\<rparr>
           \<and> status_code \<lparr>status_code = 503, json_response = Inl (OtherError ''no body'')\<rparr> \<noteq> 200"
    by (simp add: gateway_down_def)
  have c: "generate_try refused ?p = Inl (OtherError ''Connection refused'')
           \<and> (\<forall>m. OtherError ''Connection refused'' \<noteq> Timeout m)"
    by (simp add: generate_try_def refused_def)
  from generate_response_never_raises [of slow_model fresh_bot "''What is the capital of France?''" "[]"] a
  have 1: "generate_response slow_model fresh_bot ''What is the capital of France?'' []
      = Inr ''Error: Request timed out. Please try again.''" by blast
  from generate_response_never_raises [of gateway_down fresh_bot "''What is the capital of France?''" "[]"] b
  have 2: "generate_response gateway_down fresh_bot ''What is the capital of France?'' []
      = Inr (''Error: Failed to get response from AI model (Status: ''
             @ str_int (status_code \<lparr>status_code = 503, json_response = Inl (OtherError ''no body'')\<rparr>)
             @ '')'')" by blast
  from generate_response_never_raises [of refused fresh_bot "''What is the capital of France?''" "[]"] c
  have 3: "generate_response refused fresh_bot ''What is the capital of France?'' []
      = Inr (''Error generating response: '' @ str_exn (OtherError ''Connection refused''))" by blast
  show ?thesis using 1 2 3 by (simp add: str_int_503)
qed

section \<open>Retrieval: threshold and fallback\<close>

lemma length_ranked: "length (ranked st db query) = length db"
  by (simp add: ranked_def)

section \<open>The stages of the pipeline, case by case\<close>









section \<open>What a failing stage leaves behind\<close>












section \<open>File names are committed with an attempted index write\<close>





section \<open>Removal of the staging directory\<close>

lemma split_path_nonempty: "split_path p \<noteq> []"
  by (induction p) (auto split: list.splits)

lemma split_path_append: "split_path (a @ CHR ''/'' # b) = split_path a @ split_path b"
proof (induction a)
  case Nil
  then show ?case by simp
next
  case (Cons c a)
  then show ?case
    using split_path_nonempty [of a] by (cases "split_path a") auto
qed

lemma split_path_plain: "CHR ''/'' \<notin> set n \<Longrightarrow> split_path n = [n]"
  by (induction n) auto

lemma location_plain:
  assumes "plain_name n"
  shows "location (d @ ''/'' @ n) = location d @ [n]"
proof -
  have "split_path (d @ ''/'' @ n) = split_path d @ [n]"
    using assms split_path_append [of d n] by (simp add: plain_name_def split_path_plain)
  then show ?thesis using assms by (simp add: location_def norm_step_def plain_name_def)
qed

lemma under_child: "under d (d @ [n])"
  by (simp add: under_def)

lemma try_files_eq:
  assumes "process_docs_try ev cfg sid ups pf db workers ebs cs co w = (w1, contents, r)"
    and "stage_files ev sid pf ups (w, [], []) = ((ws, t, n), x)"
  shows "files w1 = files ws"
proof -
  obtain wp p where p: "prepare ev cfg sid ups pf workers cs co w = (wp, p)"
    by (cases "prepare ev cfg sid ups pf workers cs co w")
  have a: "files w1 = files wp"
    using assms(1) p
    by (auto simp: process_docs_try_def files_emit split: prepared.splits prod.splits)
  have "files wp = files ws"
    using p assms(2)
    by (auto simp: prepare_def Let_def files_emit split: option.splits if_splits prod.splits sum.splits)
  then show ?thesis using a by simp
qed

lemma cleanup_keeps:
  "q \<in> set (files w) \<Longrightarrow> \<not> under (location (''data/'' @ sid)) q \<Longrightarrow>
   q \<in> set (files (cleanup ev sid w))"
  by (auto simp: cleanup_def rmtree_def emit_def split: option.splits)

lemma cleanup_warning:
  assumes "rmtree_error ev (''data/'' @ sid) = Some e"
    and "location (''data/'' @ sid) \<in> set (files w)"
  shows "Print (Cleanup_warning e) \<in> set (trace (cleanup ev sid w))"
  using assms by (simp add: cleanup_def path_exists_def rmtree_def emit_def)

lemma run_world:
  assumes "process_docs_setup ev cfg sid ups mw ebs cs w = (w0, None)"
  shows "\<exists>w1 result. process_docs ev cfg sid ups pf db mw ebs cs co w
             = (cleanup ev sid w1, Inr result)
           \<and> location (''data/'' @ sid) \<in> set (files w1)
           \<and> (\<forall>ws t n x. stage_files ev sid pf ups (w0, [], []) = ((ws, t, n), x)
                  \<longrightarrow> files w1 = files ws)"
proof -
  obtain v contents r where
    t: "process_docs_try ev cfg sid ups pf db (resolve_workers ev cfg mw)
           (py_or ebs (EMBEDDING_BATCH_SIZE cfg)) (py_or cs (CHUNK_SIZE cfg))
           (py_or co (CHUNK_OVERLAP cfg)) w0 = (v, contents, r)"
    by (metis prod.collapse)
  have d: "location (''data/'' @ sid) \<in> set (files v)"
    using try_files [OF t] setup_ok_files [OF assms] by blast
  have e: "\<forall>ws t n x. stage_files ev sid pf ups (w0, [], []) = ((ws, t, n), x)
                  \<longrightarrow> files v = files ws"
    using try_files_eq [OF t] by blast
  show ?thesis
  proof (cases r)
    case (Inl ex)
    have "process_docs ev cfg sid ups pf db mw ebs cs co w
            = (cleanup ev sid (emit [Print (Error_during_processing ex)] v), Inr (db, contents))"
      using assms t Inl by (simp add: process_docs_def)
    then show ?thesis using d e by (auto simp: files_emit)
  next
    case (Inr idx)
    have "process_docs ev cfg sid ups pf db mw ebs cs co w
            = (cleanup ev sid v, Inr (idx, contents))"
      using assms t Inr by (simp add: process_docs_def)
    then show ?thesis using d e by auto
  qed
qed

lemma returns_setup:
  assumes "snd (process_docs ev cfg sid ups pf db mw ebs cs co w) = Inr result"
  shows "\<exists>w0. process_docs_setup ev cfg sid ups mw ebs cs w = (w0, None)"
proof -
  obtain w0 r0 where s: "process_docs_setup ev cfg sid ups mw ebs cs w = (w0, r0)"
    by (cases "process_docs_setup ev cfg sid ups mw ebs cs w")
  have "r0 = None" using assms s by (cases r0) (simp_all add: process_docs_def)
  then show ?thesis using s by simp
qed

text \<open>
  C8, as the code has it. When the two directories could be created, \<^verbatim>\<open>process_docs\<close>
  returns, on every path through the function and whatever the removal does. When it
  returns and \<^verbatim>\<open>shutil.rmtree\<close> did not raise, the directory \<^verbatim>\<open>data/{session_id}\<close> and
  everything below it are gone, among it every staged file whose name is a plain file name.
  When \<^verbatim>\<open>shutil.rmtree\<close> raised, the exception is caught and a warning is printed.
\<close>

theorem process_docs_cleanup_effort:
  "(\<forall>w0. process_docs_setup ev cfg session_id uploaded_files mw ebs cs w = (w0, None) \<longrightarrow>
      (\<exists>result. snd (process_docs ev cfg session_id uploaded_files processed_files existing_db
                       mw ebs cs co w) = Inr result))
   \<and> (\<forall>result.
         snd (process_docs ev cfg session_id uploaded_files processed_files existing_db
                mw ebs cs co w) = Inr result
         \<and> rmtree_error ev (''data/'' @ session_id) = None \<longrightarrow>
         \<not> path_exists (fst (process_docs ev cfg session_id uploaded_files processed_files
                existing_db mw ebs cs co w)) (''data/'' @ session_id)
         \<and> (\<forall>q \<in> set (files (fst (process_docs ev cfg session_id uploaded_files processed_files
                existing_db mw ebs cs co w))). \<not> under (location (''data/'' @ session_id)) q)
         \<and> (\<forall>f \<in> set uploaded_files. plain_name (name f) \<longrightarrow>
               \<not> path_exists (fst (process_docs ev cfg session_id uploaded_files processed_files
                      existing_db mw ebs cs co w))
                    ((''data/'' @ session_id) @ ''/'' @ name f)))
   \<and> (\<forall>result e.
         snd (process_docs ev cfg session_id uploaded_files processed_files existing_db
                mw ebs cs co w) = Inr result
         \<and> rmtree_error ev (''data/'' @ session_id) = Some e \<longrightarrow>
         Print (Cleanup_warning e) \<in> set (trace (fst (process_docs ev cfg session_id
                uploaded_files processed_files existing_db mw ebs cs co w))))"
proof (intro conjI allI impI)
  let ?run = "process_docs ev cfg session_id uploaded_files processed_files existing_db mw ebs cs co w"
  let ?dir = "''data/'' @ session_id"
  fix w0
  assume "process_docs_setup ev cfg session_id uploaded_files mw ebs cs w = (w0, None)"
  from run_world [OF this, of processed_files existing_db co]
  show "\<exists>result. snd ?run = Inr result" by auto
next
  let ?run = "process_docs ev cfg session_id uploaded_files processed_files existing_db mw ebs cs co w"
  let ?dir = "''data/'' @ session_id"
  fix result
  assume h: "snd ?run = Inr result \<and> rmtree_error ev ?dir = None"
  obtain w0 where s: "process_docs_setup ev cfg session_id uploaded_files mw ebs cs w = (w0, None)"
    using returns_setup h by blast
  obtain w1 res where
    r: "?run = (cleanup ev session_id w1, Inr res)" and d: "location ?dir \<in> set (files w1)"
    using run_world [OF s, of processed_files existing_db co] by blast
  have all: "\<forall>q \<in> set (files (fst ?run)). \<not> under (location ?dir) q"
    unfolding r using cleanup_removes [of ev session_id w1] h d by simp
  show "\<not> path_exists (fst ?run) ?dir"
    using all under_self [of "location ?dir"] by (auto simp: path_exists_def)
  show "\<forall>q \<in> set (files (fst ?run)). \<not> under (location ?dir) q" using all .
  show "\<forall>f \<in> set uploaded_files. plain_name (name f) \<longrightarrow>
          \<not> path_exists (fst ?run) (?dir @ ''/'' @ name f)"
  proof (intro ballI impI)
    fix f assume "f \<in> set uploaded_files" and p: "plain_name (name f)"
    have "location (?dir @ ''/'' @ name f) = location ?dir @ [name f]"
      using location_plain [OF p] .
    then have "under (location ?dir) (location (?dir @ ''/'' @ name f))"
      using under_child by simp
    then show "\<not> path_exists (fst ?run) (?dir @ ''/'' @ name f)"
      using all by (auto simp: path_exists_def)
  qed
next
  let ?run = "process_docs ev cfg session_id uploaded_files processed_files existing_db mw ebs cs co w"
  let ?dir = "''data/'' @ session_id"
  fix result e
  assume h: "snd ?run = Inr result \<and> rmtree_error ev ?dir = Some e"
  obtain w0 where s: "process_docs_setup ev cfg session_id uploaded_files mw ebs cs w = (w0, None)"
    using returns_setup h by blast
  obtain w1 res where
    r: "?run = (cleanup ev session_id w1, Inr res)" and d: "location ?dir \<in> set (files w1)"
    using run_world [OF s, of processed_files existing_db co] by blast
  show "Print (Cleanup_warning e) \<in> set (trace (fst ?run))"
    unfolding r using cleanup_warning [of ev session_id e w1] h d by simp
qed

end
